theory Spec2Isabelle
  imports Complex_Main "HOL-Library.Multiset" "HOL-Library.AList"
begin

section \<open>Configuration and command-line options\<close>

text \<open>
  The build, verify and package scripts all read \<^verbatim>\<open>config/build-config.json\<close> once with
  \<^verbatim>\<open>JSON.parse\<close>.  A JSON object is kept as the list of its members in the order the file
  declares them (an object has each key once); the booleans and strings of the
  configuration are taken at their documented types.  A number is the rational its
  literal denotes, so \<open>maxConcurrency\<close> may be zero, negative or fractional.
\<close>

record platformConfig =
  platform_enabled :: bool
  platform_pkgTarget :: string
  artifactName :: string
  extension :: "string option"

record nodeConfig =
  node_enabled :: bool
  node_supported :: bool
  node_pkgTarget :: string

record output_policy =
  directory :: string
  binaryPrefix :: string
  hashAlgorithm :: string
  compressionLevel :: int

record build_policy =
  cleanBeforeBuild :: bool
  parallel :: bool
  maxConcurrency :: rat

record config =
  platforms :: "(string \<times> platformConfig) list"
  nodeVersions :: "(string \<times> nodeConfig) list"
  output_cfg :: output_policy
  build_cfg :: build_policy

text \<open>
  The options of the build script.  \<^verbatim>\<open>getArgValue\<close> returns \<^verbatim>\<open>null\<close> or a non-empty
  string; the filters below treat the empty string as JavaScript does (falsy), so the model
  is total on \<open>string option\<close>.
\<close>

record build_options =
  opt_all :: bool
  opt_platform :: "string option"
  opt_nodeVersion :: "string option"
  single :: bool
  dryRun :: bool
  verbose :: bool

definition truthy :: "string option \<Rightarrow> bool" where
  "truthy v = (case v of None \<Rightarrow> False | Some s \<Rightarrow> s \<noteq> [])"

section \<open>Property enumeration order of a JavaScript object\<close>

text \<open>
  \<^verbatim>\<open>Object.entries\<close> lists the own properties of an object in the order the language
  fixes (ECMAScript, \<^verbatim>\<open>OrdinaryOwnPropertyKeys\<close>): first the keys that are array
  indices (canonical decimal numerals below \<open>2^32 - 1\<close>) in ascending numeric order,
  then every other string key in the order of creation, which for a parsed JSON object
  is the order of the file.
\<close>

definition is_digit :: "char \<Rightarrow> bool" where
  "is_digit c = (c \<in> set ''0123456789'')"

definition digit_val :: "char \<Rightarrow> int" where
  "digit_val c = of_char c - 48"

definition decimal_val :: "string \<Rightarrow> int" where
  "decimal_val s = foldl (\<lambda>a c. 10 * a + digit_val c) 0 s"

definition is_array_index :: "string \<Rightarrow> bool" where
  "is_array_index s =
     (s \<noteq> [] \<and> list_all is_digit s \<and> (hd s \<noteq> CHR ''0'' \<or> s = ''0'')
      \<and> decimal_val s < 4294967295)"

definition Object_entries :: "(string \<times> 'a) list \<Rightarrow> (string \<times> 'a) list" where
  "Object_entries obj =
     sort_key (\<lambda>kv. decimal_val (fst kv)) (filter (\<lambda>kv. is_array_index (fst kv)) obj)
     @ filter (\<lambda>kv. \<not> is_array_index (fst kv)) obj"

section \<open>Matrix planner\<close>

record job =
  platform :: string
  platformConfig :: platformConfig
  nodeVersion :: string
  nodeConfig :: nodeConfig
  target :: string
  outputName :: string

text \<open>\<^verbatim>\<open>getBinaryName\<close>: \<^verbatim>\<open>platformConfig.extension || ''\<close> is the empty string when the
  field is absent.\<close>

definition getBinaryName :: "config \<Rightarrow> platformConfig \<Rightarrow> string \<Rightarrow> string" where
  "getBinaryName cfg pc nv =
     (let prefix = binaryPrefix (output_cfg cfg);
          ext = (case extension pc of None \<Rightarrow> [] | Some e \<Rightarrow> e)
      in prefix @ ''-'' @ artifactName pc @ ''-node'' @ nv @ ext)"

text \<open>The filter \<^verbatim>\<open>!options.platform || name === options.platform\<close>.\<close>

definition passes_filter :: "string option \<Rightarrow> string \<Rightarrow> bool" where
  "passes_filter flt name = (\<not> truthy flt \<or> Some name = flt)"

definition enabledPlatforms :: "config \<Rightarrow> build_options \<Rightarrow> (string \<times> platformConfig) list" where
  "enabledPlatforms cfg opts =
     filter (\<lambda>kv. passes_filter (opt_platform opts) (fst kv))
       (filter (\<lambda>kv. platform_enabled (snd kv)) (Object_entries (platforms cfg)))"

definition enabledNodeVersions :: "config \<Rightarrow> build_options \<Rightarrow> (string \<times> nodeConfig) list" where
  "enabledNodeVersions cfg opts =
     filter (\<lambda>kv. passes_filter (opt_nodeVersion opts) (fst kv))
       (filter (\<lambda>kv. node_enabled (snd kv) \<and> node_supported (snd kv))
          (Object_entries (nodeVersions cfg)))"

definition make_job :: "config \<Rightarrow> string \<times> platformConfig \<Rightarrow> string \<times> nodeConfig \<Rightarrow> job" where
  "make_job cfg p v =
     \<lparr> platform = fst p, platformConfig = snd p, nodeVersion = fst v, nodeConfig = snd v,
       target = node_pkgTarget (snd v) @ ''-'' @ platform_pkgTarget (snd p),
       outputName = getBinaryName cfg (snd p) (fst v) \<rparr>"

definition generateBuildMatrix :: "config \<Rightarrow> build_options \<Rightarrow> job list" where
  "generateBuildMatrix cfg opts =
     concat (map (\<lambda>p. map (\<lambda>v. make_job cfg p v) (enabledNodeVersions cfg opts))
                 (enabledPlatforms cfg opts))"

section \<open>The output directory and the effects of a run\<close>

text \<open>
  The scripts touch one directory, \<^verbatim>\<open>path.join(__dirname, '..', config.output.directory)\<close>.
  The world of a run is that directory (\<open>None\<close> while it does not exist, otherwise its
  regular files as name and content, in the order \<^verbatim>\<open>readdirSync\<close> lists them) together
  with the trace of the effects the script has caused so far: directory creation, file
  removal, file writes, and the start and the completion of each external invocation.
  A path \<^verbatim>\<open>path.join(outputDir, name)\<close> is the entry \<open>name\<close> of the directory; the joined
  string itself only appears in command lines and messages.
\<close>

datatype event =
  Mkdir
  | Unlink string
  | Write string string
  | Exec_start string
  | Exec_done string

record world =
  outdir :: "(string \<times> string) list option"
  trace :: "event list"

definition path_join :: "string \<Rightarrow> string \<Rightarrow> string" where
  "path_join d n = d @ ''/'' @ n"

definition existsSync_dir :: "world \<Rightarrow> bool" where
  "existsSync_dir w = (outdir w \<noteq> None)"

definition mkdirSync :: "world \<Rightarrow> world" where
  "mkdirSync w =
     (case outdir w of
        None \<Rightarrow> w\<lparr>outdir := Some [], trace := trace w @ [Mkdir]\<rparr>
      | Some _ \<Rightarrow> w)"

definition readdirSync :: "world \<Rightarrow> string + string list" where
  "readdirSync w =
     (case outdir w of
        None \<Rightarrow> Inl ''ENOENT: no such file or directory, scandir''
      | Some es \<Rightarrow> Inr (map fst es))"

definition existsSync :: "string \<Rightarrow> world \<Rightarrow> bool" where
  "existsSync name w =
     (case outdir w of None \<Rightarrow> False | Some es \<Rightarrow> map_of es name \<noteq> None)"

definition readFileSync :: "string \<Rightarrow> world \<Rightarrow> string + string" where
  "readFileSync name w =
     (case outdir w of
        None \<Rightarrow> Inl ''ENOENT: no such file or directory, open''
      | Some es \<Rightarrow>
          (case map_of es name of
             None \<Rightarrow> Inl ''ENOENT: no such file or directory, open''
           | Some content \<Rightarrow> Inr content))"

definition writeFileSync :: "string \<Rightarrow> string \<Rightarrow> world \<Rightarrow> string + world" where
  "writeFileSync name content w =
     (case outdir w of
        None \<Rightarrow> Inl ''ENOENT: no such file or directory, open''
      | Some es \<Rightarrow>
          Inr (w\<lparr>outdir := Some (AList.update name content es),
                 trace := trace w @ [Write name content]\<rparr>))"

definition statSync_size :: "string \<Rightarrow> world \<Rightarrow> string + nat" where
  "statSync_size name w =
     (case readFileSync name w of Inl err \<Rightarrow> Inl err | Inr content \<Rightarrow> Inr (length content))"

fun remove_entry :: "string \<Rightarrow> (string \<times> string) list \<Rightarrow> (string \<times> string) list" where
  "remove_entry name [] = []"
| "remove_entry name (e # es) = (if fst e = name then es else e # remove_entry name es)"

definition unlinkSync :: "string \<Rightarrow> world \<Rightarrow> string + world" where
  "unlinkSync name w =
     (if existsSync name w
      then Inr (w\<lparr>outdir := map_option (remove_entry name) (outdir w),
                  trace := trace w @ [Unlink name]\<rparr>)
      else Inl ''ENOENT: no such file or directory, unlink'')"

section \<open>The environment of a run\<close>

text \<open>
  What the scripts obtain from outside the repository is a parameter of the model:
  the external packaging tool (by command line: it exits with a diagnostic, or exits
  normally having written the given bytes to its output path, or nothing at all; it
  touches no other file and does not remove the directory),
  \<^verbatim>\<open>crypto.createHash\<close> (the raw digest function of an algorithm identifier, \<open>None\<close> for
  an identifier it rejects by throwing), the project root, the version recorded in
  \<^verbatim>\<open>package.json\<close>, the clock, and the JSON printer and reader.
\<close>

datatype exec_outcome =
  Exit_ok "string option"
  | Exit_failed string

record manifest_entry =
  m_name :: string
  m_platform :: string
  m_nodeVersion :: string
  m_hash :: "string option"
  m_size :: "nat option"

record manifest =
  m_version :: string
  buildTime :: string
  builds :: "manifest_entry list"

record env =
  run_pkg :: "string \<Rightarrow> exec_outcome"
  createHash :: "string \<Rightarrow> (string \<Rightarrow> nat list) option"
  project_root :: string
  package_version :: string
  clock_iso :: string
  JSON_stringify :: "manifest \<Rightarrow> string"
  JSON_parse :: "string \<Rightarrow> manifest option"

text \<open>\<^verbatim>\<open>digest('hex')\<close>: two lower-case hexadecimal digits for each byte of the raw digest.\<close>

definition hex_digit :: "nat \<Rightarrow> char" where
  "hex_digit n = ''0123456789abcdef'' ! (n mod 16)"

definition hex_encode :: "nat list \<Rightarrow> string" where
  "hex_encode bs = concat (map (\<lambda>b. [hex_digit (b div 16), hex_digit b]) bs)"

definition generateHash :: "env \<Rightarrow> config \<Rightarrow> string \<Rightarrow> world \<Rightarrow> string + string" where
  "generateHash e cfg name w =
     (case readFileSync name w of
        Inl err \<Rightarrow> Inl err
      | Inr fileBuffer \<Rightarrow>
          (case createHash e (hashAlgorithm (output_cfg cfg)) of
             None \<Rightarrow> Inl ''Digest method not supported''
           | Some h \<Rightarrow> Inr (hex_encode (h fileBuffer))))"

section \<open>Build executor\<close>

record build_result =
  success :: bool
  dry :: bool
  outputPath :: "string option"
  size_bytes :: "nat option"
  hash :: "string option"
  error_message :: "string option"

definition result_dry :: build_result where
  "result_dry = \<lparr>success = True, dry = True, outputPath = None, size_bytes = None,
                  hash = None, error_message = None\<rparr>"

definition result_ok :: "string \<Rightarrow> nat \<Rightarrow> string \<Rightarrow> build_result" where
  "result_ok p n h = \<lparr>success = True, dry = False, outputPath = Some p, size_bytes = Some n,
                      hash = Some h, error_message = None\<rparr>"

definition result_failed :: "string \<Rightarrow> build_result" where
  "result_failed msg = \<lparr>success = False, dry = False, outputPath = None, size_bytes = None,
                         hash = None, error_message = Some msg\<rparr>"

definition outputDir_of :: "env \<Rightarrow> config \<Rightarrow> string" where
  "outputDir_of e cfg = path_join (project_root e) (directory (output_cfg cfg))"

definition ensureOutputDir :: "world \<Rightarrow> world" where
  "ensureOutputDir w = (if \<not> existsSync_dir w then mkdirSync w else w)"

fun join_with :: "string \<Rightarrow> string list \<Rightarrow> string" where
  "join_with sep [] = []"
| "join_with sep [x] = x"
| "join_with sep (x # y # ys) = x @ sep @ join_with sep (y # ys)"

definition pkgCommand :: "job \<Rightarrow> string \<Rightarrow> string" where
  "pkgCommand t outPath =
     join_with '' '' [''npx'', ''@yao-pkg/pkg'', ''.'', ''--target'', target t,
                      ''--output'', outPath, ''--compress'', ''GZip'']"

text \<open>The file the external tool leaves at its output path (no event of the script).\<close>

definition pkg_writes :: "string \<Rightarrow> string option \<Rightarrow> world \<Rightarrow> world" where
  "pkg_writes name written w =
     (case written of
        None \<Rightarrow> w
      | Some bytes \<Rightarrow> w\<lparr>outdir := map_option (AList.update name bytes) (outdir w)\<rparr>)"

text \<open>
  \<^verbatim>\<open>buildTarget\<close> suspends once, at \<^verbatim>\<open>await execAsync(pkgCommand, ...)\<close>.
  \<open>buildTarget_start\<close> is the part before the suspension (the dry-run branch returns
  before anything is started), \<open>buildTarget_finish\<close> the part after it: the outcome of
  the external process, the check that the binary exists, its size and digest, the
  sidecar, and the \<^verbatim>\<open>catch\<close> that turns every exception into a failed result.
\<close>

definition buildTarget_start :: "build_options \<Rightarrow> job \<Rightarrow> string \<Rightarrow> world \<Rightarrow> world" where
  "buildTarget_start opts t outDir w =
     (if dryRun opts then w
      else w\<lparr>trace := trace w @ [Exec_start (pkgCommand t (path_join outDir (outputName t)))]\<rparr>)"

definition buildTarget_finish ::
  "env \<Rightarrow> config \<Rightarrow> build_options \<Rightarrow> job \<Rightarrow> string \<Rightarrow> world \<Rightarrow> build_result \<times> world" where
  "buildTarget_finish e cfg opts t outDir w =
     (if dryRun opts then (result_dry, w)
      else
        let outPath = path_join outDir (outputName t);
            cmd = pkgCommand t outPath;
            w1 = w\<lparr>trace := trace w @ [Exec_done cmd]\<rparr>
        in case run_pkg e cmd of
             Exit_failed msg \<Rightarrow> (result_failed msg, w1)
           | Exit_ok written \<Rightarrow>
               let w2 = pkg_writes (outputName t) written w1
               in if \<not> existsSync (outputName t) w2
                  then (result_failed (''Binary not created: '' @ outPath), w2)
                  else
                    (case statSync_size (outputName t) w2 of
                       Inl err \<Rightarrow> (result_failed err, w2)
                     | Inr sz \<Rightarrow>
                        (case generateHash e cfg (outputName t) w2 of
                           Inl err \<Rightarrow> (result_failed err, w2)
                         | Inr h \<Rightarrow>
                            (case writeFileSync
                                    (outputName t @ ''.'' @ hashAlgorithm (output_cfg cfg))
                                    (h @ ''  '' @ outputName t @ [CHR 0x0A]) w2 of
                               Inl err \<Rightarrow> (result_failed err, w2)
                             | Inr w3 \<Rightarrow> (result_ok outPath sz h, w3)))))"

definition buildTarget ::
  "env \<Rightarrow> config \<Rightarrow> build_options \<Rightarrow> job \<Rightarrow> string \<Rightarrow> world \<Rightarrow> build_result \<times> world" where
  "buildTarget e cfg opts t outDir w =
     buildTarget_finish e cfg opts t outDir (buildTarget_start opts t outDir w)"

text \<open>The sequential branch of \<open>main\<close>: one \<^verbatim>\<open>await buildTarget\<close> after the other.\<close>

fun build_sequential ::
  "env \<Rightarrow> config \<Rightarrow> build_options \<Rightarrow> string \<Rightarrow> job list \<Rightarrow> world
     \<Rightarrow> (job \<times> build_result) list \<times> world" where
  "build_sequential e cfg opts outDir [] w = ([], w)"
| "build_sequential e cfg opts outDir (t # ts) w =
     (let (r, w1) = buildTarget e cfg opts t outDir w;
          (rs, w2) = build_sequential e cfg opts outDir ts w1
      in ((t, r) # rs, w2))"

subsection \<open>The worker pool\<close>

text \<open>
  \<^verbatim>\<open>buildWithConcurrency\<close> starts \<^verbatim>\<open>Math.min(maxConcurrency, matrix.length)\<close> workers.
  A worker runs without interruption from one suspension to the next: it takes the head
  of the queue and starts its build; when the external process of its job completes it
  finishes that build, appends the result, and either takes the next job or, the queue
  being empty, ends.  Which of the jobs in flight completes next is decided outside the
  script; the schedule is the list of those decisions (each taken modulo the number of
  jobs in flight, the oldest one when the list is exhausted).  In a dry run a build has
  nothing to wait for but its own settled result; the model lets those resumptions come
  in any order as well.  \<open>worker_start\<close> is the call \<^verbatim>\<open>worker()\<close> up to its first
  suspension, \<open>worker_resume\<close> the continuation of the worker holding the job in flight
  at index \<open>i\<close>, and \<open>drain\<close> is \<^verbatim>\<open>await Promise.all(workers)\<close>.
\<close>

record pool =
  queue :: "job list"
  running :: "job list"
  results :: "(job \<times> build_result) list"
  pworld :: world

definition worker_start :: "build_options \<Rightarrow> string \<Rightarrow> pool \<Rightarrow> pool" where
  "worker_start opts outDir p =
     (case queue p of
        [] \<Rightarrow> p
      | t # q \<Rightarrow> p\<lparr>queue := q, running := running p @ [t],
                     pworld := buildTarget_start opts t outDir (pworld p)\<rparr>)"

definition remove_nth :: "nat \<Rightarrow> 'a list \<Rightarrow> 'a list" where
  "remove_nth i xs = take i xs @ drop (Suc i) xs"

definition worker_resume ::
  "env \<Rightarrow> config \<Rightarrow> build_options \<Rightarrow> string \<Rightarrow> nat \<Rightarrow> pool \<Rightarrow> pool" where
  "worker_resume e cfg opts outDir i p =
     (let t = running p ! i;
          (r, w) = buildTarget_finish e cfg opts t outDir (pworld p);
          rs = results p @ [(t, r)]
      in case queue p of
           [] \<Rightarrow> p\<lparr>running := remove_nth i (running p), results := rs, pworld := w\<rparr>
         | t' # q \<Rightarrow> p\<lparr>queue := q, running := (running p)[i := t'], results := rs,
                         pworld := buildTarget_start opts t' outDir w\<rparr>)"

definition pick :: "nat list \<Rightarrow> nat \<Rightarrow> nat" where
  "pick sched n = (case sched of [] \<Rightarrow> 0 | c # _ \<Rightarrow> c mod n)"

function drain ::
  "env \<Rightarrow> config \<Rightarrow> build_options \<Rightarrow> string \<Rightarrow> nat list \<Rightarrow> pool \<Rightarrow> pool" where
  "drain e cfg opts outDir sched p =
     (if running p = [] then p
      else drain e cfg opts outDir (tl sched)
             (worker_resume e cfg opts outDir (pick sched (length (running p))) p))"
  by pat_completeness auto


lemma pick_less: "0 < n \<Longrightarrow> pick sched n < n"
  by (simp add: pick_def split: list.splits)

lemma worker_resume_measure:
  "i < length (running p) \<Longrightarrow>
   length (queue (worker_resume e cfg opts outDir i p))
     + length (running (worker_resume e cfg opts outDir i p))
   < length (queue p) + length (running p)"
  by (auto simp: worker_resume_def remove_nth_def Let_def split: prod.splits list.splits)

termination drain
  apply (relation "measure (\<lambda>(e, cfg, opts, outDir, sched, p).
                      length (queue p) + length (running p))")
   apply simp
  apply (simp add: worker_resume_measure pick_less)
  done

declare drain.simps [simp del]

text \<open>
  \<^verbatim>\<open>Array(len)\<close> is an array of \<open>len\<close> empty slots when \<open>len\<close> is a non-negative
  integer and throws a \<^verbatim>\<open>RangeError\<close> when it is negative or fractional.  (Its upper
  limit \<open>2^32 - 1\<close> is out of reach here: the argument is at most the length of the
  plan, which is an array itself.)  The exception leaves \<^verbatim>\<open>buildWithConcurrency\<close> before
  any worker exists; otherwise \<^verbatim>\<open>.fill(null).map(() => worker())\<close> calls \<^verbatim>\<open>worker\<close> once
  for each slot.
\<close>

definition js_Array :: "rat \<Rightarrow> string + nat" where
  "js_Array len =
     (if len < 0 \<or> of_int \<lfloor>len\<rfloor> \<noteq> len then Inl ''RangeError: Invalid array length''
      else Inr (nat \<lfloor>len\<rfloor>))"

definition buildWithConcurrency ::
  "env \<Rightarrow> config \<Rightarrow> build_options \<Rightarrow> nat list \<Rightarrow> job list \<Rightarrow> string \<Rightarrow> rat \<Rightarrow> world
     \<Rightarrow> string + (job \<times> build_result) list \<times> world" where
  "buildWithConcurrency e cfg opts sched matrix outDir maxConc w =
     (case js_Array (min maxConc (of_nat (length matrix))) of
        Inl err \<Rightarrow> Inl err
      | Inr n \<Rightarrow>
          let p0 = \<lparr>queue = matrix, running = [], results = [], pworld = w\<rparr>;
              p1 = (worker_start opts outDir ^^ n) p0;
              p2 = drain e cfg opts outDir sched p1
          in Inr (results p2, pworld p2))"

subsection \<open>The build script\<close>

fun unlink_all :: "string list \<Rightarrow> world \<Rightarrow> string + world" where
  "unlink_all [] w = Inr w"
| "unlink_all (f # fs) w =
     (case unlinkSync f w of Inl err \<Rightarrow> Inl err | Inr w' \<Rightarrow> unlink_all fs w')"

definition clean_outputDir :: "world \<Rightarrow> string + world" where
  "clean_outputDir w =
     (case readdirSync w of Inl err \<Rightarrow> Inl err | Inr files \<Rightarrow> unlink_all files w)"

record summary =
  total :: nat
  successful :: nat
  failed :: nat

record build_run =
  exit_code :: nat
  run_summary :: "summary option"
  run_results :: "(job \<times> build_result) list"
  final_world :: world

definition manifest_of :: "env \<Rightarrow> (job \<times> build_result) list \<Rightarrow> manifest" where
  "manifest_of e rs =
     \<lparr> m_version = package_version e, buildTime = clock_iso e,
       builds = map (\<lambda>r. \<lparr> m_name = outputName (fst r), m_platform = platform (fst r),
                            m_nodeVersion = nodeVersion (fst r), m_hash = hash (snd r),
                            m_size = size_bytes (snd r) \<rparr>)
                    (filter (\<lambda>r. success (snd r)) rs) \<rparr>"

text \<open>The end of \<open>main\<close>: the summary, the manifest and the exit status, from the
  collected results.  An exception of \<^verbatim>\<open>writeFileSync\<close> reaches \<^verbatim>\<open>main().catch\<close>,
  which exits with status 1.\<close>

definition conclude :: "env \<Rightarrow> (job \<times> build_result) list \<Rightarrow> world \<Rightarrow> build_run" where
  "conclude e rs w =
     (let n_ok = length (filter (\<lambda>r. success (snd r)) rs);
          n_failed = length (filter (\<lambda>r. \<not> success (snd r)) rs);
          s = \<lparr>total = length rs, successful = n_ok, failed = n_failed\<rparr>
      in case (if n_ok > 0
               then writeFileSync ''manifest.json'' (JSON_stringify e (manifest_of e rs)) w
               else Inr w) of
           Inl err \<Rightarrow> \<lparr>exit_code = 1, run_summary = Some s, run_results = rs, final_world = w\<rparr>
         | Inr w' \<Rightarrow> \<lparr>exit_code = (if n_failed > 0 then 1 else 0), run_summary = Some s,
                        run_results = rs, final_world = w'\<rparr>)"

text \<open>\<^verbatim>\<open>process.exit(1)\<close> before any job has run: the empty plan, or an exception
  on the way to the builds.\<close>

definition aborted :: "world \<Rightarrow> build_run" where
  "aborted w = \<lparr>exit_code = 1, run_summary = None, run_results = [], final_world = w\<rparr>"

text \<open>The branch \<^verbatim>\<open>if (config.build.parallel && matrix.length > 1)\<close> of \<open>main\<close>.\<close>

definition run_jobs ::
  "env \<Rightarrow> config \<Rightarrow> build_options \<Rightarrow> nat list \<Rightarrow> job list \<Rightarrow> string \<Rightarrow> world
     \<Rightarrow> string + (job \<times> build_result) list \<times> world" where
  "run_jobs e cfg opts sched matrix outDir w =
     (if parallel (build_cfg cfg) \<and> length matrix > 1
      then buildWithConcurrency e cfg opts sched matrix outDir (maxConcurrency (build_cfg cfg)) w
      else Inr (build_sequential e cfg opts outDir matrix w))"

text \<open>\<open>main\<close> of the build script, started with the output directory \<open>fs0\<close> and
  the completion schedule \<open>sched\<close>.\<close>

definition build_main ::
  "env \<Rightarrow> config \<Rightarrow> build_options \<Rightarrow> nat list \<Rightarrow> (string \<times> string) list option \<Rightarrow> build_run" where
  "build_main e cfg opts sched fs0 =
     (let w0 = \<lparr>outdir = fs0, trace = []\<rparr>;
          matrix = generateBuildMatrix cfg opts
      in if matrix = [] then aborted w0
         else
           let w1 = ensureOutputDir w0
           in case (if cleanBeforeBuild (build_cfg cfg) \<and> \<not> single opts
                    then clean_outputDir w1 else Inr w1) of
                Inl err \<Rightarrow> aborted w1
              | Inr w2 \<Rightarrow>
                  (case run_jobs e cfg opts sched matrix (outputDir_of e cfg) w2 of
                     Inl err \<Rightarrow> aborted w2
                   | Inr (rs, w3) \<Rightarrow> conclude e rs w3))"

section \<open>Verifier\<close>

text \<open>
  Strings are lists of code units below 256.  \<open>is_space\<close> is the part of the class
  \<^verbatim>\<open>\s\<close> (and of what \<^verbatim>\<open>trim\<close> removes) in that range.  \<^verbatim>\<open>split(/\s+/)\<close> cuts at every
  maximal run of white space, so a string that starts or ends with white space has an
  empty first or last piece, and the empty string has one piece, itself.
\<close>

definition is_space :: "char \<Rightarrow> bool" where
  "is_space c =
     (c \<in> set [CHR 0x09, CHR 0x0A, CHR 0x0B, CHR 0x0C, CHR 0x0D, CHR 0x20, CHR 0xA0])"

definition js_trim :: "string \<Rightarrow> string" where
  "js_trim s = rev (dropWhile is_space (rev (dropWhile is_space s)))"

function split_from :: "string \<Rightarrow> string \<Rightarrow> string list" where
  "split_from cur [] = [rev cur]"
| "split_from cur (c # cs) =
     (if is_space c then rev cur # split_from [] (dropWhile is_space cs)
      else split_from (c # cur) cs)"
  by pat_completeness auto
termination
  by (relation "measure (\<lambda>(cur, s). length s)")
     (auto simp: length_dropWhile_le less_Suc_eq_le)

definition split_ws :: "string \<Rightarrow> string list" where
  "split_ws s = split_from [] s"

definition endsWith :: "string \<Rightarrow> string \<Rightarrow> bool" where
  "endsWith s suffix =
     (length suffix \<le> length s \<and> drop (length s - length suffix) s = suffix)"

record verify_options =
  v_file :: "string option"
  v_hash :: "string option"
  v_manifest :: bool
  v_verbose :: bool

record verify_result =
  v_success :: bool
  v_error :: "string option"
  expected :: "string option"
  actual :: "string option"

definition calculateHash :: "env \<Rightarrow> string \<Rightarrow> string \<Rightarrow> world \<Rightarrow> string + string" where
  "calculateHash e name algorithm w =
     (case readFileSync name w of
        Inl err \<Rightarrow> Inl err
      | Inr fileBuffer \<Rightarrow>
          (case createHash e algorithm of
             None \<Rightarrow> Inl ''Digest method not supported''
           | Some h \<Rightarrow> Inr (hex_encode (h fileBuffer))))"

definition verify_error :: "string \<Rightarrow> verify_result" where
  "verify_error msg = \<lparr>v_success = False, v_error = Some msg, expected = None, actual = None\<rparr>"

definition compared :: "string option \<Rightarrow> string \<Rightarrow> verify_result" where
  "compared expectedHash actualHash =
     \<lparr>v_success = (expectedHash = Some actualHash), v_error = None,
      expected = expectedHash, actual = Some actualHash\<rparr>"

text \<open>An exception (\<open>Inl\<close>) of the verifier is caught nowhere: it ends the script
  with status 1 (what was printed before it is not kept).\<close>

definition verifyFile :: "env \<Rightarrow> config \<Rightarrow> string \<Rightarrow> world \<Rightarrow> string + verify_result" where
  "verifyFile e cfg name w =
     (let hashFile = name @ ''.'' @ hashAlgorithm (output_cfg cfg)
      in if \<not> existsSync name w then Inr (verify_error ''Binary file not found'')
         else if \<not> existsSync hashFile w then Inr (verify_error ''Hash file not found'')
         else
           (case readFileSync hashFile w of
              Inl err \<Rightarrow> Inl err
            | Inr content \<Rightarrow>
                let expectedHash = hd (split_ws (js_trim content))
                in (case calculateHash e name (hashAlgorithm (output_cfg cfg)) w of
                      Inl err \<Rightarrow> Inl err
                    | Inr actualHash \<Rightarrow> Inr (compared (Some expectedHash) actualHash))))"

definition verifyFileWithHash ::
  "env \<Rightarrow> config \<Rightarrow> string \<Rightarrow> string option \<Rightarrow> world \<Rightarrow> string + verify_result" where
  "verifyFileWithHash e cfg name expectedHash w =
     (if \<not> existsSync name w then Inr (verify_error ''Binary file not found'')
      else
        (case calculateHash e name (hashAlgorithm (output_cfg cfg)) w of
           Inl err \<Rightarrow> Inl err
         | Inr actualHash \<Rightarrow> Inr (compared expectedHash actualHash)))"

text \<open>What the verifier prints, line by line.\<close>

datatype line =
  Dir_not_found
  | Manifest_not_found
  | Nothing_to_verify
  | Verifying nat
  | Passed string
  | Rejected string
  | Hash_line "string option"
  | Error_line string
  | Expected_line "string option"
  | Actual_line "string option"
  | Verified string
  | Mismatch string

definition report :: "bool \<Rightarrow> string \<Rightarrow> verify_result \<Rightarrow> line list" where
  "report vb name r =
     (if v_success r then Passed name # (if vb then [Hash_line (actual r)] else [])
      else Rejected name #
           (if truthy (v_error r) then [Error_line (the (v_error r))]
            else [Expected_line (expected r), Actual_line (actual r)]))"

text \<open>The loop shared by \<^verbatim>\<open>verifyAll\<close> and \<^verbatim>\<open>verifyManifest\<close>: \<^verbatim>\<open>allPassed\<close> starts
  true and is cleared by every failing artifact.\<close>

fun verify_each ::
  "('a \<Rightarrow> string + verify_result) \<Rightarrow> ('a \<Rightarrow> string) \<Rightarrow> bool \<Rightarrow> 'a list
     \<Rightarrow> line list \<times> bool \<Rightarrow> string + line list \<times> bool" where
  "verify_each check name_of vb [] acc = Inr acc"
| "verify_each check name_of vb (x # xs) acc =
     (case check x of
        Inl err \<Rightarrow> Inl err
      | Inr r \<Rightarrow>
          verify_each check name_of vb xs
            (fst acc @ report vb (name_of x) r, (if v_success r then snd acc else False)))"

definition is_binary_name :: "config \<Rightarrow> string \<Rightarrow> bool" where
  "is_binary_name cfg f =
     (\<not> endsWith f (''.'' @ hashAlgorithm (output_cfg cfg)) \<and> \<not> endsWith f ''.json''
      \<and> \<not> endsWith f ''.zip'')"

definition verifyAll ::
  "env \<Rightarrow> config \<Rightarrow> verify_options \<Rightarrow> world \<Rightarrow> string + line list \<times> bool" where
  "verifyAll e cfg vo w =
     (if \<not> existsSync_dir w then Inr ([Dir_not_found], False)
      else
        (case readdirSync w of
           Inl err \<Rightarrow> Inl err
         | Inr names \<Rightarrow>
             let files = filter (is_binary_name cfg) names
             in if length files = 0 then Inr ([Nothing_to_verify], True)
                else verify_each (\<lambda>f. verifyFile e cfg f w) (\<lambda>f. f) (v_verbose vo) files
                       ([Verifying (length files)], True)))"

definition verifyManifest ::
  "env \<Rightarrow> config \<Rightarrow> verify_options \<Rightarrow> world \<Rightarrow> string + line list \<times> bool" where
  "verifyManifest e cfg vo w =
     (if \<not> existsSync ''manifest.json'' w then Inr ([Manifest_not_found], False)
      else
        (case readFileSync ''manifest.json'' w of
           Inl err \<Rightarrow> Inl err
         | Inr doc \<Rightarrow>
             (case JSON_parse e doc of
                None \<Rightarrow> Inl ''SyntaxError: Unexpected token in JSON''
              | Some m \<Rightarrow>
                  verify_each (\<lambda>b. verifyFileWithHash e cfg (m_name b) (m_hash b) w) m_name
                    (v_verbose vo) (builds m) ([Verifying (length (builds m))], True))))"

record verify_run =
  v_exit_code :: nat
  console :: "line list"

definition single_report :: "bool \<Rightarrow> string \<Rightarrow> verify_result \<Rightarrow> line list" where
  "single_report with_hashes name r =
     (if v_success r then [Verified name]
      else Mismatch name #
           (if truthy (v_error r) then [Error_line (the (v_error r))]
            else if with_hashes then [Expected_line (expected r), Actual_line (actual r)]
            else []))"

definition verify_main :: "env \<Rightarrow> config \<Rightarrow> verify_options \<Rightarrow> world \<Rightarrow> verify_run" where
  "verify_main e cfg vo w =
     (let outcome =
            (if truthy (v_file vo) \<and> truthy (v_hash vo) then
               (case verifyFileWithHash e cfg (the (v_file vo)) (v_hash vo) w of
                  Inl err \<Rightarrow> Inl err
                | Inr r \<Rightarrow> Inr (single_report True (the (v_file vo)) r, v_success r))
             else if truthy (v_file vo) then
               (case verifyFile e cfg (the (v_file vo)) w of
                  Inl err \<Rightarrow> Inl err
                | Inr r \<Rightarrow> Inr (single_report False (the (v_file vo)) r, v_success r))
             else if v_manifest vo then verifyManifest e cfg vo w
             else verifyAll e cfg vo w)
      in case outcome of
           Inl err \<Rightarrow> \<lparr>v_exit_code = 1, console = []\<rparr>
         | Inr (out, ok) \<Rightarrow> \<lparr>v_exit_code = (if ok then 0 else 1), console = out\<rparr>)"

section \<open>Reading a trace\<close>

text \<open>
  The number of external invocations in flight changes by one at every start and every
  completion; \<open>levels k tr\<close> lists that number before the first event of \<open>tr\<close> and
  after each of its events, starting from \<open>k\<close>.
\<close>

fun delta :: "event \<Rightarrow> int" where
  "delta (Exec_start c) = 1"
| "delta (Exec_done c) = - 1"
| "delta ev = 0"

definition in_flight :: "event list \<Rightarrow> int" where
  "in_flight tr = sum_list (map delta tr)"

fun levels :: "int \<Rightarrow> event list \<Rightarrow> int list" where
  "levels k [] = [k]"
| "levels k (ev # tr) = k # levels (k + delta ev) tr"

definition exec_events :: "event list \<Rightarrow> event list" where
  "exec_events tr = filter (\<lambda>ev. delta ev \<noteq> 0) tr"

fun is_write :: "event \<Rightarrow> bool" where
  "is_write (Write name content) = True"
| "is_write ev = False"

fun written_name :: "event \<Rightarrow> string" where
  "written_name (Write name content) = name"
| "written_name ev = []"

definition written_names :: "event list \<Rightarrow> string list" where
  "written_names tr = map written_name (filter is_write tr)"

text \<open>The command lines of the external invocations a trace starts, in order.\<close>

fun started :: "event \<Rightarrow> string list" where
  "started (Exec_start c) = [c]"
| "started ev = []"

definition invocations :: "event list \<Rightarrow> string list" where
  "invocations tr = concat (map started tr)"

section \<open>Example configurations\<close>

definition linux_x64 :: platformConfig where
  "linux_x64 = \<lparr>platform_enabled = True, platform_pkgTarget = ''linux-x64'',
                 artifactName = ''linux-x64'', extension = Some []\<rparr>"

definition macos_arm64 :: platformConfig where
  "macos_arm64 = \<lparr>platform_enabled = True, platform_pkgTarget = ''macos-arm64'',
                   artifactName = ''darwin-arm64'', extension = None\<rparr>"

definition windows_x64 :: platformConfig where
  "windows_x64 = \<lparr>platform_enabled = False, platform_pkgTarget = ''win-x64'',
                   artifactName = ''win32-x64'', extension = Some ''.exe''\<rparr>"

definition node_version :: "bool \<Rightarrow> bool \<Rightarrow> string \<Rightarrow> nodeConfig" where
  "node_version is_enabled is_supported tgt =
     \<lparr>node_enabled = is_enabled, node_supported = is_supported, node_pkgTarget = tgt\<rparr>"

definition output_policy0 :: output_policy where
  "output_policy0 = \<lparr>directory = ''dist'', binaryPrefix = ''mjml'', hashAlgorithm = ''sha256'',
                      compressionLevel = 9\<rparr>"

definition no_filters :: build_options where
  "no_filters = \<lparr>opt_all = False, opt_platform = None, opt_nodeVersion = None, single = False,
                  dryRun = False, verbose = False\<rparr>"

text \<open>The scenario of the specification: one enabled platform, versions 20 and 16 declared
  in that order.\<close>

definition scenario_config :: config where
  "scenario_config =
     \<lparr> platforms = [(''linux-x64'', linux_x64)],
       nodeVersions = [(''20'', node_version True True ''node20''),
                       (''16'', node_version True True ''node16'')],
       output_cfg = output_policy0,
       build_cfg = \<lparr>cleanBeforeBuild = True, parallel = True, maxConcurrency = 4\<rparr> \<rparr>"

text \<open>Two platforms and a disabled one; version 24 enabled but not supported; versions
  declared in descending order.\<close>

definition pending_config :: config where
  "pending_config =
     \<lparr> platforms = [(''linux-x64'', linux_x64), (''windows-x64'', windows_x64),
                    (''macos-arm64'', macos_arm64)],
       nodeVersions = [(''24'', node_version True False ''node24''),
                       (''22'', node_version True True ''node22''),
                       (''18'', node_version True True ''node18'')],
       output_cfg = output_policy0,
       build_cfg = \<lparr>cleanBeforeBuild = False, parallel = False, maxConcurrency = 2\<rparr> \<rparr>"

text \<open>The planner as the specification words it: the product of the eligible platforms
  and versions in the order the configuration declares them.\<close>

definition planner_in_declared_order :: "config \<Rightarrow> build_options \<Rightarrow> job list" where
  "planner_in_declared_order cfg opts =
     concat (map (\<lambda>p. map (\<lambda>v. make_job cfg p v)
                    (filter (\<lambda>v. node_enabled (snd v) \<and> node_supported (snd v)
                                   \<and> passes_filter (opt_nodeVersion opts) (fst v))
                       (nodeVersions cfg)))
               (filter (\<lambda>p. platform_enabled (snd p) \<and> passes_filter (opt_platform opts) (fst p))
                  (platforms cfg)))"

definition job_key :: "job \<Rightarrow> (string \<times> platformConfig) \<times> (string \<times> nodeConfig)" where
  "job_key j = ((platform j, platformConfig j), (nodeVersion j, nodeConfig j))"

text \<open>A configuration object whose declared order is already its enumeration order: the
  array-index keys come first, in ascending order.\<close>

definition declared_in_enumeration_order :: "(string \<times> 'a) list \<Rightarrow> bool" where
  "declared_in_enumeration_order obj =
     (sorted (map (\<lambda>kv. decimal_val (fst kv)) (takeWhile (\<lambda>kv. is_array_index (fst kv)) obj))
      \<and> list_all (\<lambda>kv. \<not> is_array_index (fst kv))
            (dropWhile (\<lambda>kv. is_array_index (fst kv)) obj))"

text \<open>The shape of the configuration the project documents: versions in ascending order.\<close>

definition documented_config :: config where
  "documented_config =
     \<lparr> platforms = [(''macos-arm64'', macos_arm64), (''linux-x64'', linux_x64),
                    (''windows-x64'', windows_x64)],
       nodeVersions = [(''16'', node_version True True ''node16''),
                       (''20'', node_version True True ''node20''),
                       (''24'', node_version False False ''node24'')],
       output_cfg = output_policy0,
       build_cfg = \<lparr>cleanBeforeBuild = True, parallel = True, maxConcurrency = 4\<rparr> \<rparr>"

text \<open>An environment for the examples: a two-byte stand-in for the digest, known to the
  runtime as \<open>sha256\<close>; an external tool that always leaves a binary; a printer that
  lists the artifact names; a reader that knows one document.\<close>

definition toy_digest :: "string \<Rightarrow> nat list" where
  "toy_digest bs = [length bs mod 256, sum_list (map of_char bs) mod 256]"

definition recorded_manifest :: manifest where
  "recorded_manifest =
     \<lparr> m_version = ''1.0.0'', buildTime = ''2024-01-01T00:00:00.000Z'',
       builds = [\<lparr>m_name = ''app'', m_platform = ''linux-x64'', m_nodeVersion = ''20'',
                  m_hash = Some (hex_encode (toy_digest ''payload'')), m_size = Some 7\<rparr>,
                 \<lparr>m_name = ''ghost'', m_platform = ''linux-x64'', m_nodeVersion = ''18'',
                  m_hash = Some ''0000'', m_size = Some 4\<rparr>,
                 \<lparr>m_name = ''bad'', m_platform = ''linux-x64'', m_nodeVersion = ''16'',
                  m_hash = Some ''0000'', m_size = Some 3\<rparr>] \<rparr>"

definition example_env :: env where
  "example_env =
     \<lparr> run_pkg = (\<lambda>cmd. Exit_ok (Some ''binary'')),
       createHash = (\<lambda>a. if a = ''sha256'' then Some toy_digest else None),
       project_root = ''/repo'',
       package_version = ''1.0.0'',
       clock_iso = ''2024-01-01T00:00:00.000Z'',
       JSON_stringify = (\<lambda>m. join_with '','' (map m_name (builds m))),
       JSON_parse = (\<lambda>doc. if doc = ''recorded'' then Some recorded_manifest else None) \<rparr>"


definition bulk_mode :: verify_options where
  "bulk_mode = \<lparr>v_file = None, v_hash = None, v_manifest = False, v_verbose = False\<rparr>"

definition linux_20 :: job where
  "linux_20 = make_job scenario_config (''linux-x64'', linux_x64)
                (''20'', node_version True True ''node20'')"

definition fresh_world :: world where
  "fresh_world = \<lparr>outdir = Some [], trace = []\<rparr>"

text \<open>An external tool that fails for the target \<open>node22-linux-x64\<close>.\<close>

definition flaky_env :: env where
  "flaky_env =
     example_env\<lparr>run_pkg := (\<lambda>cmd. if cmd = ''npx @yao-pkg/pkg . --target node22-linux-x64 --output /repo/dist/mjml-linux-x64-node22 --compress GZip''
                                 then Exit_failed ''Command failed: pkg''
                                 else Exit_ok (Some ''binary''))\<rparr>"

definition parallel_config :: "rat \<Rightarrow> config" where
  "parallel_config k =
     pending_config\<lparr>build_cfg :=
       \<lparr>cleanBeforeBuild = True, parallel = True, maxConcurrency = k\<rparr>\<rparr>"

definition dry_run :: build_options where
  "dry_run = no_filters\<lparr>dryRun := True\<rparr>"

definition failing_env :: env where
  "failing_env = example_env\<lparr>run_pkg := (\<lambda>cmd. Exit_failed ''Command failed: pkg'')\<rparr>"

definition stale_dir :: "(string \<times> string) list option" where
  "stale_dir = Some [(''stale'', ''old''), (''manifest.json'', ''previous'')]"

section \<open>Properties of the matrix planner\<close>


lemma mset_Object_entries: "mset (Object_entries obj) = mset obj"
  unfolding Object_entries_def
  by (simp add: multiset_partition[symmetric])

lemma mset_product_sum:
  "mset (List.product xs ys) = (\<Sum>x\<in>#mset xs. image_mset (Pair x) (mset ys))"
  by (induction xs) simp_all

lemma mset_product_cong:
  "mset xs = mset xs' \<Longrightarrow> mset ys = mset ys' \<Longrightarrow>
   mset (List.product xs ys) = mset (List.product xs' ys')"
  by (simp add: mset_product_sum)

lemma job_key_make_job: "job_key (make_job cfg p v) = (p, v)"
  by (simp add: job_key_def make_job_def)

lemma matrix_keys:
  "map job_key (generateBuildMatrix cfg opts)
     = List.product (enabledPlatforms cfg opts) (enabledNodeVersions cfg opts)"
  by (simp add: generateBuildMatrix_def product_concat_map map_concat comp_def job_key_make_job)

lemma mset_enabledPlatforms:
  "mset (enabledPlatforms cfg opts)
     = mset (filter (\<lambda>p. platform_enabled (snd p) \<and> passes_filter (opt_platform opts) (fst p)) (platforms cfg))"
  by (simp add: enabledPlatforms_def mset_Object_entries filter_mset_eq_conv conj_commute)

lemma mset_enabledNodeVersions:
  "mset (enabledNodeVersions cfg opts)
     = mset (filter (\<lambda>v. node_enabled (snd v) \<and> node_supported (snd v) \<and> passes_filter (opt_nodeVersion opts) (fst v)) (nodeVersions cfg))"
  by (simp add: enabledNodeVersions_def mset_Object_entries conj_commute conj_left_commute)


lemma matrix_jobs_made:
  "j \<in> set (generateBuildMatrix cfg opts) \<Longrightarrow>
     (platform j, platformConfig j) \<in> set (enabledPlatforms cfg opts)
     \<and> (nodeVersion j, nodeConfig j) \<in> set (enabledNodeVersions cfg opts)
     \<and> j = make_job cfg (platform j, platformConfig j) (nodeVersion j, nodeConfig j)"
  by (auto simp: generateBuildMatrix_def make_job_def)

lemma set_enabledNodeVersions:
  "set (enabledNodeVersions cfg opts)
     = {v \<in> set (nodeVersions cfg). node_enabled (snd v) \<and> node_supported (snd v)
          \<and> passes_filter (opt_nodeVersion opts) (fst v)}"
  unfolding mset_eq_setD[OF mset_enabledNodeVersions] by auto

lemma set_enabledPlatforms:
  "set (enabledPlatforms cfg opts)
     = {p \<in> set (platforms cfg). platform_enabled (snd p)
          \<and> passes_filter (opt_platform opts) (fst p)}"
  unfolding mset_eq_setD[OF mset_enabledPlatforms] by auto

lemma filter_Object_entries: "filter P (Object_entries obj) = Object_entries (filter P obj)"
  unfolding Object_entries_def
  by (simp add: filter_sort conj_commute)

lemma Object_entries_declared:
  assumes "declared_in_enumeration_order obj"
  shows "Object_entries obj = obj"
proof -
  let ?P = "\<lambda>kv. is_array_index (fst kv)"
  from assms have srt: "sorted (map (\<lambda>kv. decimal_val (fst kv)) (takeWhile ?P obj))"
    and rest: "list_all (\<lambda>kv. \<not> ?P kv) (dropWhile ?P obj)"
    by (simp_all add: declared_in_enumeration_order_def)
  from rest have none: "\<forall>kv \<in> set (dropWhile ?P obj). \<not> ?P kv"
    by (simp only: list_all_iff)
  have tk: "\<forall>kv \<in> set (takeWhile ?P obj). ?P kv"
    by (auto dest: set_takeWhileD)
  have "filter ?P obj = filter ?P (takeWhile ?P obj) @ filter ?P (dropWhile ?P obj)"
    by (metis filter_append takeWhile_dropWhile_id)
  also have "filter ?P (takeWhile ?P obj) = takeWhile ?P obj"
    using tk by (simp only: filter_id_conv)
  also have "filter ?P (dropWhile ?P obj) = []"
    using none by (simp only: filter_empty_conv)
  finally have f1: "filter ?P obj = takeWhile ?P obj" by simp
  have "filter (\<lambda>kv. \<not> ?P kv) obj
          = filter (\<lambda>kv. \<not> ?P kv) (takeWhile ?P obj) @ filter (\<lambda>kv. \<not> ?P kv) (dropWhile ?P obj)"
    by (metis filter_append takeWhile_dropWhile_id)
  also have "filter (\<lambda>kv. \<not> ?P kv) (takeWhile ?P obj) = []"
    using tk by (simp only: filter_empty_conv not_not)
  also have "filter (\<lambda>kv. \<not> ?P kv) (dropWhile ?P obj) = dropWhile ?P obj"
    using none by (simp only: filter_id_conv)
  finally have f2: "filter (\<lambda>kv. \<not> ?P kv) obj = dropWhile ?P obj" by simp
  from srt have "sort_key (\<lambda>kv. decimal_val (fst kv)) (takeWhile ?P obj) = takeWhile ?P obj"
    by (rule sort_key_id_if_sorted)
  then show ?thesis
    unfolding Object_entries_def f1 f2 by simp
qed

lemma matrix_as_product:
  "generateBuildMatrix cfg opts
     = map (\<lambda>pv. make_job cfg (fst pv) (snd pv))
         (List.product (enabledPlatforms cfg opts) (enabledNodeVersions cfg opts))"
  by (simp add: generateBuildMatrix_def product_concat_map map_concat comp_def)

lemma declared_as_product:
  "planner_in_declared_order cfg opts
     = map (\<lambda>pv. make_job cfg (fst pv) (snd pv))
         (List.product
            (filter (\<lambda>p. platform_enabled (snd p) \<and> passes_filter (opt_platform opts) (fst p))
               (platforms cfg))
            (filter (\<lambda>v. node_enabled (snd v) \<and> node_supported (snd v)
                           \<and> passes_filter (opt_nodeVersion opts) (fst v))
               (nodeVersions cfg)))"
  by (simp add: planner_in_declared_order_def product_concat_map map_concat comp_def)


lemma Object_entries_linux: "Object_entries [(''linux-x64'', pc)] = [(''linux-x64'', pc)]"
  by (simp add: Object_entries_def is_array_index_def is_digit_def)

lemma Object_entries_20_16:
  "Object_entries [(''20'', a), (''16'', b)] = [(''16'', b), (''20'', a)]"
  "Object_entries [(''16'', b), (''20'', a)] = [(''16'', b), (''20'', a)]"
  by (simp_all add: Object_entries_def is_array_index_def is_digit_def decimal_val_def digit_val_def)

text \<open>
  Claim C1.  For every configuration and every pair of optional filters, the job list is
  exactly the Cartesian product of the declared platforms that are enabled and pass the
  platform filter with the declared runtime versions that are enabled, supported and pass
  the version filter: as multisets of (platform entry, version entry) pairs the two
  coincide, so each pair gives one job and the size is the product of the two counts; and
  every job of the list carries a supported and enabled version entry of the configuration,
  so a version with \<open>supported = false\<close> is never scheduled, enabled or not.
\<close>

theorem planner_cartesian_product:
  "mset (map job_key (generateBuildMatrix cfg opts))
     = mset (List.product
         (filter (\<lambda>p. platform_enabled (snd p) \<and> passes_filter (opt_platform opts) (fst p))
            (platforms cfg))
         (filter (\<lambda>v. node_enabled (snd v) \<and> node_supported (snd v)
                        \<and> passes_filter (opt_nodeVersion opts) (fst v))
            (nodeVersions cfg)))
   \<and> length (generateBuildMatrix cfg opts)
     = length (filter (\<lambda>p. platform_enabled (snd p) \<and> passes_filter (opt_platform opts) (fst p))
                 (platforms cfg))
       * length (filter (\<lambda>v. node_enabled (snd v) \<and> node_supported (snd v)
                               \<and> passes_filter (opt_nodeVersion opts) (fst v))
                   (nodeVersions cfg))
   \<and> (\<forall>j \<in> set (generateBuildMatrix cfg opts).
         node_supported (nodeConfig j) \<and> node_enabled (nodeConfig j)
         \<and> platform_enabled (platformConfig j)
         \<and> (platform j, platformConfig j) \<in> set (platforms cfg)
         \<and> (nodeVersion j, nodeConfig j) \<in> set (nodeVersions cfg)
         \<and> passes_filter (opt_platform opts) (platform j)
         \<and> passes_filter (opt_nodeVersion opts) (nodeVersion j)
         \<and> j = make_job cfg (platform j, platformConfig j) (nodeVersion j, nodeConfig j))"
proof -
  have prod: "mset (map job_key (generateBuildMatrix cfg opts))
     = mset (List.product
         (filter (\<lambda>p. platform_enabled (snd p) \<and> passes_filter (opt_platform opts) (fst p))
            (platforms cfg))
         (filter (\<lambda>v. node_enabled (snd v) \<and> node_supported (snd v)
                        \<and> passes_filter (opt_nodeVersion opts) (fst v))
            (nodeVersions cfg)))"
    unfolding matrix_keys
    by (rule mset_product_cong[OF mset_enabledPlatforms mset_enabledNodeVersions])
  have "length (generateBuildMatrix cfg opts)
          = length (enabledPlatforms cfg opts) * length (enabledNodeVersions cfg opts)"
    using arg_cong[OF matrix_keys[of cfg opts], of length] by simp
  also have "length (enabledPlatforms cfg opts)
          = length (filter (\<lambda>p. platform_enabled (snd p) \<and> passes_filter (opt_platform opts) (fst p))
                 (platforms cfg))"
    by (rule mset_eq_length[OF mset_enabledPlatforms])
  also have "length (enabledNodeVersions cfg opts)
          = length (filter (\<lambda>v. node_enabled (snd v) \<and> node_supported (snd v)
                               \<and> passes_filter (opt_nodeVersion opts) (fst v))
                   (nodeVersions cfg))"
    by (rule mset_eq_length[OF mset_enabledNodeVersions])
  finally have len: "length (generateBuildMatrix cfg opts)
     = length (filter (\<lambda>p. platform_enabled (snd p) \<and> passes_filter (opt_platform opts) (fst p))
                 (platforms cfg))
       * length (filter (\<lambda>v. node_enabled (snd v) \<and> node_supported (snd v)
                               \<and> passes_filter (opt_nodeVersion opts) (fst v))
                   (nodeVersions cfg))" .
  have each: "\<forall>j \<in> set (generateBuildMatrix cfg opts).
         node_supported (nodeConfig j) \<and> node_enabled (nodeConfig j)
         \<and> platform_enabled (platformConfig j)
         \<and> (platform j, platformConfig j) \<in> set (platforms cfg)
         \<and> (nodeVersion j, nodeConfig j) \<in> set (nodeVersions cfg)
         \<and> passes_filter (opt_platform opts) (platform j)
         \<and> passes_filter (opt_nodeVersion opts) (nodeVersion j)
         \<and> j = make_job cfg (platform j, platformConfig j) (nodeVersion j, nodeConfig j)"
  proof
    fix j assume j: "j \<in> set (generateBuildMatrix cfg opts)"
    note m = matrix_jobs_made[OF j]
    from m have p: "(platform j, platformConfig j) \<in> set (enabledPlatforms cfg opts)"
      and v: "(nodeVersion j, nodeConfig j) \<in> set (enabledNodeVersions cfg opts)" by simp_all
    from p v m
    show "node_supported (nodeConfig j) \<and> node_enabled (nodeConfig j)
         \<and> platform_enabled (platformConfig j)
         \<and> (platform j, platformConfig j) \<in> set (platforms cfg)
         \<and> (nodeVersion j, nodeConfig j) \<in> set (nodeVersions cfg)
         \<and> passes_filter (opt_platform opts) (platform j)
         \<and> passes_filter (opt_nodeVersion opts) (nodeVersion j)
         \<and> j = make_job cfg (platform j, platformConfig j) (nodeVersion j, nodeConfig j)"
      unfolding set_enabledPlatforms set_enabledNodeVersions by simp
  qed
  show ?thesis by (intro conjI prod len each)
qed

theorem planner_cartesian_product_witness:
  "make_job pending_config (''linux-x64'', linux_x64) (''22'', node_version True True ''node22'')
     \<in> set (generateBuildMatrix pending_config no_filters)
   \<and> node_supported (nodeConfig (make_job pending_config (''linux-x64'', linux_x64)
                                      (''22'', node_version True True ''node22'')))
   \<and> length (generateBuildMatrix pending_config no_filters) = 4
   \<and> (''24'', node_version True False ''node24'') \<in> set (nodeVersions pending_config)
   \<and> ''24'' \<notin> set (map nodeVersion (generateBuildMatrix pending_config no_filters))"
proof -
  let ?j = "make_job pending_config (''linux-x64'', linux_x64)
              (''22'', node_version True True ''node22'')"
  note main = planner_cartesian_product[of pending_config no_filters]
  have mem: "?j \<in> set (generateBuildMatrix pending_config no_filters)"
    by code_simp
  from main mem have sup: "node_supported (nodeConfig ?j)"
    by blast
  have cnt: "length (filter (\<lambda>p. platform_enabled (snd p)
                              \<and> passes_filter (opt_platform no_filters) (fst p))
                 (platforms pending_config))
       * length (filter (\<lambda>v. node_enabled (snd v) \<and> node_supported (snd v)
                               \<and> passes_filter (opt_nodeVersion no_filters) (fst v))
                   (nodeVersions pending_config)) = 4"
    by code_simp
  from main have "length (generateBuildMatrix pending_config no_filters)
     = length (filter (\<lambda>p. platform_enabled (snd p)
                              \<and> passes_filter (opt_platform no_filters) (fst p))
                 (platforms pending_config))
       * length (filter (\<lambda>v. node_enabled (snd v) \<and> node_supported (snd v)
                               \<and> passes_filter (opt_nodeVersion no_filters) (fst v))
                   (nodeVersions pending_config))"
    by (rule conjunct1[OF conjunct2])
  with cnt have len: "length (generateBuildMatrix pending_config no_filters) = 4"
    by simp
  have decl: "(''24'', node_version True False ''node24'') \<in> set (nodeVersions pending_config)"
    by (simp add: pending_config_def)
  have absent: "''24'' \<notin> set (map nodeVersion (generateBuildMatrix pending_config no_filters))"
    by code_simp
  show ?thesis by (intro conjI mem sup len decl absent)
qed

text \<open>The laws of the enumeration order, stated without its definition.\<close>

lemma Object_entries_index_keys:
  "filter (\<lambda>kv. is_array_index (fst kv)) (Object_entries obj)
     = sort_key (\<lambda>kv. decimal_val (fst kv)) (filter (\<lambda>kv. is_array_index (fst kv)) obj)"
  unfolding Object_entries_def by (simp add: filter_sort)

lemma Object_entries_other_keys:
  "filter (\<lambda>kv. \<not> is_array_index (fst kv)) (Object_entries obj)
     = filter (\<lambda>kv. \<not> is_array_index (fst kv)) obj"
  unfolding Object_entries_def by (simp add: filter_sort)

lemma Object_entries_laws:
  "Object_entries obj
     = filter (\<lambda>kv. is_array_index (fst kv)) (Object_entries obj)
       @ filter (\<lambda>kv. \<not> is_array_index (fst kv)) (Object_entries obj)
   \<and> sorted (map (\<lambda>kv. decimal_val (fst kv))
               (filter (\<lambda>kv. is_array_index (fst kv)) (Object_entries obj)))
   \<and> filter (\<lambda>kv. \<not> is_array_index (fst kv)) (Object_entries obj)
       = filter (\<lambda>kv. \<not> is_array_index (fst kv)) obj
   \<and> mset (Object_entries obj) = mset obj"
  unfolding Object_entries_index_keys Object_entries_other_keys
  by (simp add: mset_Object_entries) (simp add: Object_entries_def)

lemma enabledPlatforms_entries:
  "enabledPlatforms cfg opts
     = Object_entries (filter (\<lambda>p. platform_enabled (snd p)
                                    \<and> passes_filter (opt_platform opts) (fst p)) (platforms cfg))"
  by (simp add: enabledPlatforms_def filter_Object_entries conj_commute)

lemma enabledNodeVersions_entries:
  "enabledNodeVersions cfg opts
     = Object_entries (filter (\<lambda>v. node_enabled (snd v) \<and> node_supported (snd v)
                                    \<and> passes_filter (opt_nodeVersion opts) (fst v))
                         (nodeVersions cfg))"
  by (simp add: enabledNodeVersions_def filter_Object_entries conj_commute conj_left_commute)

text \<open>Two objects that hold the same members, with array-index keys of distinct values
  and the other members declared in the same order, enumerate alike, wherever the
  members with array-index keys are declared.\<close>

lemma Object_entries_redeclared:
  assumes same: "mset obj' = mset obj"
    and others: "filter (\<lambda>kv. \<not> is_array_index (fst kv)) obj'
                   = filter (\<lambda>kv. \<not> is_array_index (fst kv)) obj"
    and dist: "distinct (map (\<lambda>kv. decimal_val (fst kv))
                          (filter (\<lambda>kv. is_array_index (fst kv)) obj))"
  shows "Object_entries obj' = Object_entries obj"
proof -
  let ?f = "\<lambda>kv. decimal_val (fst kv)"
  let ?I = "filter (\<lambda>kv. is_array_index (fst kv)) obj"
  let ?I' = "filter (\<lambda>kv. is_array_index (fst kv)) obj'"
  from same have m: "mset ?I' = mset ?I" by simp
  then have sets: "set ?I' = set ?I" by (rule mset_eq_setD)
  from dist have "inj_on ?f (set ?I)" by (simp only: distinct_map)
  with sets have inj: "inj_on ?f (set ?I')" by simp
  have "mset ?I' = mset (sort_key ?f ?I)" using m by simp
  from sort_key_inj_key_eq[OF this inj] have "sort_key ?f ?I' = sort_key ?f ?I" by simp
  then show ?thesis
    unfolding Object_entries_def others by simp
qed

lemma filter_redeclared:
  assumes "mset obj' = mset obj"
    and "filter (\<lambda>kv. \<not> is_array_index (fst kv)) obj'
           = filter (\<lambda>kv. \<not> is_array_index (fst kv)) obj"
    and "distinct (map (\<lambda>kv. decimal_val (fst kv))
                     (filter (\<lambda>kv. is_array_index (fst kv)) obj))"
  shows "Object_entries (filter P obj') = Object_entries (filter P obj)"
proof (rule Object_entries_redeclared)
  from assms(1) show "mset (filter P obj') = mset (filter P obj)" by simp
  have "filter (\<lambda>kv. \<not> is_array_index (fst kv)) (filter P obj')
          = filter P (filter (\<lambda>kv. \<not> is_array_index (fst kv)) obj')"
    by (simp add: conj_commute)
  also have "\<dots> = filter P (filter (\<lambda>kv. \<not> is_array_index (fst kv)) obj)"
    by (simp only: assms(2))
  also have "\<dots> = filter (\<lambda>kv. \<not> is_array_index (fst kv)) (filter P obj)"
    by (simp add: conj_commute)
  finally show "filter (\<lambda>kv. \<not> is_array_index (fst kv)) (filter P obj')
                  = filter (\<lambda>kv. \<not> is_array_index (fst kv)) (filter P obj)" .
  have "filter (\<lambda>kv. is_array_index (fst kv)) (filter P obj)
          = filter P (filter (\<lambda>kv. is_array_index (fst kv)) obj)"
    by (simp add: conj_commute)
  with distinct_map_filter[OF assms(3), of P]
  show "distinct (map (\<lambda>kv. decimal_val (fst kv))
                    (filter (\<lambda>kv. is_array_index (fst kv)) (filter P obj)))"
    by simp
qed

text \<open>
  Claim C7 (amended).  The job list is a function of the platforms, the runtime versions,
  the binary prefix and the two filters alone: two runs that agree on these produce the
  same list in the same order, whatever else differs.  The list is platform-major: the
  jobs of a platform are consecutive and list the versions in the same order for every
  platform.  That order, for the platforms as for the versions, is the property
  enumeration order of the eligible members of the configuration: the members with
  array-index keys come first, in ascending numeric order, then the other members in the
  order they are declared, and none is lost or repeated.  So the plan does not depend on
  where the members with array-index keys are declared: two configurations that hold
  the same platforms and the same versions, with array-index keys of distinct values and
  the other members declared in the same order, have the same plan.  And the plan is in
  declared order whenever both objects declare their array-index keys first and in
  ascending order.
\<close>

theorem planner_deterministic:
  fixes cfg cfg' :: config and opts opts' :: build_options
  defines "P \<equiv> enabledPlatforms cfg opts"
    and "V \<equiv> enabledNodeVersions cfg opts"
    and "P_declared \<equiv> filter (\<lambda>p. platform_enabled (snd p)
                                    \<and> passes_filter (opt_platform opts) (fst p)) (platforms cfg)"
    and "V_declared \<equiv> filter (\<lambda>v. node_enabled (snd v) \<and> node_supported (snd v)
                                    \<and> passes_filter (opt_nodeVersion opts) (fst v))
                          (nodeVersions cfg)"
  shows
   "(platforms cfg' = platforms cfg \<and> nodeVersions cfg' = nodeVersions cfg
      \<and> binaryPrefix (output_cfg cfg') = binaryPrefix (output_cfg cfg)
      \<and> opt_platform opts' = opt_platform opts \<and> opt_nodeVersion opts' = opt_nodeVersion opts
      \<longrightarrow> generateBuildMatrix cfg' opts' = generateBuildMatrix cfg opts)
   \<and> map (\<lambda>j. ((platform j, platformConfig j), (nodeVersion j, nodeConfig j)))
         (generateBuildMatrix cfg opts)
       = concat (map (\<lambda>p. map (\<lambda>v. (p, v)) V) P)
   \<and> P = filter (\<lambda>kv. is_array_index (fst kv)) P @ filter (\<lambda>kv. \<not> is_array_index (fst kv)) P
   \<and> sorted (map (\<lambda>kv. decimal_val (fst kv)) (filter (\<lambda>kv. is_array_index (fst kv)) P))
   \<and> filter (\<lambda>kv. \<not> is_array_index (fst kv)) P
       = filter (\<lambda>kv. \<not> is_array_index (fst kv)) P_declared
   \<and> mset P = mset P_declared
   \<and> V = filter (\<lambda>kv. is_array_index (fst kv)) V @ filter (\<lambda>kv. \<not> is_array_index (fst kv)) V
   \<and> sorted (map (\<lambda>kv. decimal_val (fst kv)) (filter (\<lambda>kv. is_array_index (fst kv)) V))
   \<and> filter (\<lambda>kv. \<not> is_array_index (fst kv)) V
       = filter (\<lambda>kv. \<not> is_array_index (fst kv)) V_declared
   \<and> mset V = mset V_declared
   \<and> (mset (platforms cfg') = mset (platforms cfg)
        \<and> filter (\<lambda>kv. \<not> is_array_index (fst kv)) (platforms cfg')
            = filter (\<lambda>kv. \<not> is_array_index (fst kv)) (platforms cfg)
        \<and> distinct (map (\<lambda>kv. decimal_val (fst kv))
                      (filter (\<lambda>kv. is_array_index (fst kv)) (platforms cfg)))
        \<and> mset (nodeVersions cfg') = mset (nodeVersions cfg)
        \<and> filter (\<lambda>kv. \<not> is_array_index (fst kv)) (nodeVersions cfg')
            = filter (\<lambda>kv. \<not> is_array_index (fst kv)) (nodeVersions cfg)
        \<and> distinct (map (\<lambda>kv. decimal_val (fst kv))
                      (filter (\<lambda>kv. is_array_index (fst kv)) (nodeVersions cfg)))
        \<and> binaryPrefix (output_cfg cfg') = binaryPrefix (output_cfg cfg)
        \<and> opt_platform opts' = opt_platform opts \<and> opt_nodeVersion opts' = opt_nodeVersion opts
      \<longrightarrow> generateBuildMatrix cfg' opts' = generateBuildMatrix cfg opts)
   \<and> (declared_in_enumeration_order (platforms cfg)
        \<and> declared_in_enumeration_order (nodeVersions cfg)
      \<longrightarrow> generateBuildMatrix cfg opts = planner_in_declared_order cfg opts)"
proof -
  have det: "platforms cfg' = platforms cfg \<and> nodeVersions cfg' = nodeVersions cfg
      \<and> binaryPrefix (output_cfg cfg') = binaryPrefix (output_cfg cfg)
      \<and> opt_platform opts' = opt_platform opts \<and> opt_nodeVersion opts' = opt_nodeVersion opts
      \<longrightarrow> generateBuildMatrix cfg' opts' = generateBuildMatrix cfg opts"
    by (simp add: generateBuildMatrix_def enabledPlatforms_def enabledNodeVersions_def
        make_job_def getBinaryName_def)
  have major: "map (\<lambda>j. ((platform j, platformConfig j), (nodeVersion j, nodeConfig j)))
         (generateBuildMatrix cfg opts)
       = concat (map (\<lambda>p. map (\<lambda>v. (p, v)) V) P)"
    unfolding P_def V_def
    by (simp add: generateBuildMatrix_def map_concat comp_def make_job_def)
  have Pe: "P = Object_entries P_declared"
    unfolding P_def P_declared_def by (rule enabledPlatforms_entries)
  have Ve: "V = Object_entries V_declared"
    unfolding V_def V_declared_def by (rule enabledNodeVersions_entries)
  have Pl: "P = filter (\<lambda>kv. is_array_index (fst kv)) P
               @ filter (\<lambda>kv. \<not> is_array_index (fst kv)) P
     \<and> sorted (map (\<lambda>kv. decimal_val (fst kv)) (filter (\<lambda>kv. is_array_index (fst kv)) P))
     \<and> filter (\<lambda>kv. \<not> is_array_index (fst kv)) P
         = filter (\<lambda>kv. \<not> is_array_index (fst kv)) P_declared
     \<and> mset P = mset P_declared"
    by (subst (1 2 3 4 5 6) Pe) (rule Object_entries_laws)
  have Vl: "V = filter (\<lambda>kv. is_array_index (fst kv)) V
               @ filter (\<lambda>kv. \<not> is_array_index (fst kv)) V
     \<and> sorted (map (\<lambda>kv. decimal_val (fst kv)) (filter (\<lambda>kv. is_array_index (fst kv)) V))
     \<and> filter (\<lambda>kv. \<not> is_array_index (fst kv)) V
         = filter (\<lambda>kv. \<not> is_array_index (fst kv)) V_declared
     \<and> mset V = mset V_declared"
    by (subst (1 2 3 4 5 6) Ve) (rule Object_entries_laws)
  have redecl: "mset (platforms cfg') = mset (platforms cfg)
        \<and> filter (\<lambda>kv. \<not> is_array_index (fst kv)) (platforms cfg')
            = filter (\<lambda>kv. \<not> is_array_index (fst kv)) (platforms cfg)
        \<and> distinct (map (\<lambda>kv. decimal_val (fst kv))
                      (filter (\<lambda>kv. is_array_index (fst kv)) (platforms cfg)))
        \<and> mset (nodeVersions cfg') = mset (nodeVersions cfg)
        \<and> filter (\<lambda>kv. \<not> is_array_index (fst kv)) (nodeVersions cfg')
            = filter (\<lambda>kv. \<not> is_array_index (fst kv)) (nodeVersions cfg)
        \<and> distinct (map (\<lambda>kv. decimal_val (fst kv))
                      (filter (\<lambda>kv. is_array_index (fst kv)) (nodeVersions cfg)))
        \<and> binaryPrefix (output_cfg cfg') = binaryPrefix (output_cfg cfg)
        \<and> opt_platform opts' = opt_platform opts \<and> opt_nodeVersion opts' = opt_nodeVersion opts
      \<longrightarrow> generateBuildMatrix cfg' opts' = generateBuildMatrix cfg opts"
  proof
    assume a: "mset (platforms cfg') = mset (platforms cfg)
        \<and> filter (\<lambda>kv. \<not> is_array_index (fst kv)) (platforms cfg')
            = filter (\<lambda>kv. \<not> is_array_index (fst kv)) (platforms cfg)
        \<and> distinct (map (\<lambda>kv. decimal_val (fst kv))
                      (filter (\<lambda>kv. is_array_index (fst kv)) (platforms cfg)))
        \<and> mset (nodeVersions cfg') = mset (nodeVersions cfg)
        \<and> filter (\<lambda>kv. \<not> is_array_index (fst kv)) (nodeVersions cfg')
            = filter (\<lambda>kv. \<not> is_array_index (fst kv)) (nodeVersions cfg)
        \<and> distinct (map (\<lambda>kv. decimal_val (fst kv))
                      (filter (\<lambda>kv. is_array_index (fst kv)) (nodeVersions cfg)))
        \<and> binaryPrefix (output_cfg cfg') = binaryPrefix (output_cfg cfg)
        \<and> opt_platform opts' = opt_platform opts \<and> opt_nodeVersion opts' = opt_nodeVersion opts"
    then have same: "mset (nodeVersions cfg') = mset (nodeVersions cfg)"
      and others: "filter (\<lambda>kv. \<not> is_array_index (fst kv)) (nodeVersions cfg')
            = filter (\<lambda>kv. \<not> is_array_index (fst kv)) (nodeVersions cfg)"
      and dist: "distinct (map (\<lambda>kv. decimal_val (fst kv))
                      (filter (\<lambda>kv. is_array_index (fst kv)) (nodeVersions cfg)))"
      and flt: "opt_nodeVersion opts' = opt_nodeVersion opts"
      and psame: "mset (platforms cfg') = mset (platforms cfg)"
      and pothers: "filter (\<lambda>kv. \<not> is_array_index (fst kv)) (platforms cfg')
            = filter (\<lambda>kv. \<not> is_array_index (fst kv)) (platforms cfg)"
      and pdist: "distinct (map (\<lambda>kv. decimal_val (fst kv))
                      (filter (\<lambda>kv. is_array_index (fst kv)) (platforms cfg)))"
      and pflt: "opt_platform opts' = opt_platform opts"
      by simp_all
    have vs: "enabledNodeVersions cfg' opts' = enabledNodeVersions cfg opts"
      unfolding enabledNodeVersions_entries flt
      by (rule filter_redeclared[OF same others dist])
    have ps: "enabledPlatforms cfg' opts' = enabledPlatforms cfg opts"
      unfolding enabledPlatforms_entries pflt
      by (rule filter_redeclared[OF psame pothers pdist])
    from a have mj: "make_job cfg' = make_job cfg"
      by (intro ext) (simp add: make_job_def getBinaryName_def)
    show "generateBuildMatrix cfg' opts' = generateBuildMatrix cfg opts"
      unfolding generateBuildMatrix_def vs ps mj ..
  qed
  have ord: "generateBuildMatrix cfg opts
       = map (\<lambda>pv. make_job cfg (fst pv) (snd pv)) (List.product P V)"
    unfolding P_def V_def by (rule matrix_as_product)
  have decl: "declared_in_enumeration_order (platforms cfg)
        \<and> declared_in_enumeration_order (nodeVersions cfg)
      \<longrightarrow> generateBuildMatrix cfg opts = planner_in_declared_order cfg opts"
    unfolding matrix_as_product declared_as_product
      enabledPlatforms_def enabledNodeVersions_def
    by (simp add: Object_entries_declared conj_commute conj_left_commute)
  from Pl have P1: "P = filter (\<lambda>kv. is_array_index (fst kv)) P
               @ filter (\<lambda>kv. \<not> is_array_index (fst kv)) P"
    and P2: "sorted (map (\<lambda>kv. decimal_val (fst kv)) (filter (\<lambda>kv. is_array_index (fst kv)) P))"
    and P3: "filter (\<lambda>kv. \<not> is_array_index (fst kv)) P
         = filter (\<lambda>kv. \<not> is_array_index (fst kv)) P_declared"
    and P4: "mset P = mset P_declared"
    by blast+
  from Vl have V1: "V = filter (\<lambda>kv. is_array_index (fst kv)) V
               @ filter (\<lambda>kv. \<not> is_array_index (fst kv)) V"
    and V2: "sorted (map (\<lambda>kv. decimal_val (fst kv)) (filter (\<lambda>kv. is_array_index (fst kv)) V))"
    and V3: "filter (\<lambda>kv. \<not> is_array_index (fst kv)) V
         = filter (\<lambda>kv. \<not> is_array_index (fst kv)) V_declared"
    and V4: "mset V = mset V_declared"
    by blast+
  show ?thesis
    by (intro conjI det major P1 P2 P3 P4 V1 V2 V3 V4 redecl decl)
qed

theorem planner_deterministic_witness:
  "generateBuildMatrix (pending_config\<lparr>build_cfg := build_cfg documented_config\<rparr>)
       (no_filters\<lparr>dryRun := True, verbose := True\<rparr>)
     = generateBuildMatrix pending_config no_filters
   \<and> map (\<lambda>kv. fst kv) (nodeVersions pending_config) = [''24'', ''22'', ''18'']
   \<and> map (\<lambda>kv. fst kv) (enabledNodeVersions pending_config no_filters) = [''18'', ''22'']
   \<and> sorted (map (\<lambda>kv. decimal_val (fst kv))
               (filter (\<lambda>kv. is_array_index (fst kv))
                  (enabledNodeVersions pending_config no_filters)))
   \<and> generateBuildMatrix (pending_config\<lparr>nodeVersions := rev (nodeVersions pending_config)\<rparr>)
       no_filters
     = generateBuildMatrix pending_config no_filters
   \<and> generateBuildMatrix documented_config no_filters
     = planner_in_declared_order documented_config no_filters
   \<and> generateBuildMatrix documented_config no_filters \<noteq> []"
proof -
  have same: "generateBuildMatrix (pending_config\<lparr>build_cfg := build_cfg documented_config\<rparr>)
       (no_filters\<lparr>dryRun := True, verbose := True\<rparr>)
     = generateBuildMatrix pending_config no_filters"
    using planner_deterministic[of "pending_config\<lparr>build_cfg := build_cfg documented_config\<rparr>"
        pending_config "no_filters\<lparr>dryRun := True, verbose := True\<rparr>" no_filters]
    by simp
  have declared: "map (\<lambda>kv. fst kv) (nodeVersions pending_config) = [''24'', ''22'', ''18'']"
    by (simp add: pending_config_def)
  have planned: "map (\<lambda>kv. fst kv) (enabledNodeVersions pending_config no_filters)
                   = [''18'', ''22'']"
    by code_simp
  from planner_deterministic[of pending_config pending_config no_filters no_filters]
  have ascending: "sorted (map (\<lambda>kv. decimal_val (fst kv))
               (filter (\<lambda>kv. is_array_index (fst kv))
                  (enabledNodeVersions pending_config no_filters)))"
    by blast
  have idx: "filter (\<lambda>kv. \<not> is_array_index (fst kv)) (rev (nodeVersions pending_config))
                = filter (\<lambda>kv. \<not> is_array_index (fst kv)) (nodeVersions pending_config)"
    by code_simp
  have dist: "distinct (map (\<lambda>kv. decimal_val (fst kv))
                 (filter (\<lambda>kv. is_array_index (fst kv)) (nodeVersions pending_config)))"
    by code_simp
  have pdist: "distinct (map (\<lambda>kv. decimal_val (fst kv))
                 (filter (\<lambda>kv. is_array_index (fst kv)) (platforms pending_config)))"
    by code_simp
  have redeclared: "generateBuildMatrix
         (pending_config\<lparr>nodeVersions := rev (nodeVersions pending_config)\<rparr>) no_filters
     = generateBuildMatrix pending_config no_filters"
    using planner_deterministic[of
        "pending_config\<lparr>nodeVersions := rev (nodeVersions pending_config)\<rparr>"
        pending_config no_filters no_filters] idx dist pdist
    by simp
  have d1: "declared_in_enumeration_order (platforms documented_config)"
    by code_simp
  have d2: "declared_in_enumeration_order (nodeVersions documented_config)"
    by code_simp
  have decl: "generateBuildMatrix documented_config no_filters
     = planner_in_declared_order documented_config no_filters"
    using planner_deterministic[of documented_config documented_config no_filters no_filters]
      d1 d2 by blast
  have ne: "generateBuildMatrix documented_config no_filters \<noteq> []"
    by code_simp
  show ?thesis by (intro conjI same declared planned ascending redeclared decl ne)
qed

text \<open>
  The claim as stated also fixes the order as the declared one.  With the versions
  declared 24, 22, 18 the jobs of each platform come out as 18, 22.
\<close>

theorem planner_declared_order_counterexample:
  "generateBuildMatrix pending_config no_filters
     \<noteq> planner_in_declared_order pending_config no_filters"
  by code_simp

text \<open>
  Claim C9 (amended).  For a configuration whose only enabled platform is \<open>linux-x64\<close>
  (artifact name \<open>linux-x64\<close>, empty or absent extension, binary prefix \<open>mjml\<close>) and
  whose enabled and supported versions are 20 and 16, declared in either order, and no
  filter given, the planner yields exactly two jobs, \<open>linux-x64/16\<close> then
  \<open>linux-x64/20\<close>, with output names \<open>mjml-linux-x64-node16\<close> and
  \<open>mjml-linux-x64-node20\<close>.
\<close>

theorem scenario_two_jobs:
  assumes "\<not> truthy (opt_platform opts)" and "\<not> truthy (opt_nodeVersion opts)"
    and "filter (\<lambda>p. platform_enabled (snd p)) (platforms cfg) = [(''linux-x64'', pc)]"
    and "artifactName pc = ''linux-x64''"
    and "extension pc = None \<or> extension pc = Some []"
    and "binaryPrefix (output_cfg cfg) = ''mjml''"
    and "filter (\<lambda>v. node_enabled (snd v) \<and> node_supported (snd v)) (nodeVersions cfg)
           = [(''20'', n20), (''16'', n16)]
         \<or> filter (\<lambda>v. node_enabled (snd v) \<and> node_supported (snd v)) (nodeVersions cfg)
           = [(''16'', n16), (''20'', n20)]"
  shows "map (\<lambda>j. (platform j, nodeVersion j, outputName j)) (generateBuildMatrix cfg opts)
           = [(''linux-x64'', ''16'', ''mjml-linux-x64-node16''),
              (''linux-x64'', ''20'', ''mjml-linux-x64-node20'')]"
proof -
  have ps: "enabledPlatforms cfg opts = [(''linux-x64'', pc)]"
    using assms(1,3)
    by (simp add: enabledPlatforms_def filter_Object_entries Object_entries_linux passes_filter_def)
  have vs: "enabledNodeVersions cfg opts = [(''16'', n16), (''20'', n20)]"
    using assms(2,7)
    by (auto simp: enabledNodeVersions_def filter_Object_entries Object_entries_20_16
        passes_filter_def)
  from assms(4,5,6) show ?thesis
    unfolding generateBuildMatrix_def ps vs
    by (auto simp: make_job_def getBinaryName_def)
qed

theorem scenario_two_jobs_witness:
  "map (\<lambda>j. (platform j, nodeVersion j, outputName j))
       (generateBuildMatrix scenario_config no_filters)
     = [(''linux-x64'', ''16'', ''mjml-linux-x64-node16''),
        (''linux-x64'', ''20'', ''mjml-linux-x64-node20'')]"
  using scenario_two_jobs[of no_filters scenario_config linux_x64
      "node_version True True ''node20''" "node_version True True ''node16''"]
  by (simp add: no_filters_def scenario_config_def linux_x64_def node_version_def
      output_policy0_def truthy_def)

text \<open>
  The scenario declares version 20 before version 16; the jobs are not in that order.
\<close>

theorem scenario_declared_order_counterexample:
  "map (\<lambda>j. (platform j, nodeVersion j)) (generateBuildMatrix scenario_config no_filters)
     \<noteq> [(''linux-x64'', ''20''), (''linux-x64'', ''16'')]
   \<and> map fst (nodeVersions scenario_config) = [''20'', ''16'']"
  by code_simp

section \<open>Properties of the verifier\<close>










text \<open>
  Claim C10.  In bulk mode (no file given, no manifest flag) the verifier fails with exit
  status 1 when the output directory does not exist; when the directory exists and every
  file in it is a hash sidecar, a \<open>.json\<close> file or a \<open>.zip\<close> file, it checks
  nothing, prints no per-artifact line and succeeds with exit status 0.
\<close>

theorem bulk_verification_edge_cases:
  assumes "\<not> truthy (v_file vo)" and "\<not> v_manifest vo"
  shows "(outdir w = None \<longrightarrow>
            verifyAll e cfg vo w = Inr ([Dir_not_found], False)
            \<and> verify_main e cfg vo w = \<lparr>v_exit_code = 1, console = [Dir_not_found]\<rparr>)
         \<and> (\<forall>es. outdir w = Some es
               \<and> (\<forall>f \<in> set (map fst es).
                     endsWith f (''.'' @ hashAlgorithm (output_cfg cfg))
                     \<or> endsWith f ''.json'' \<or> endsWith f ''.zip'') \<longrightarrow>
             verifyAll e cfg vo w = Inr ([Nothing_to_verify], True)
             \<and> verify_main e cfg vo w = \<lparr>v_exit_code = 0, console = [Nothing_to_verify]\<rparr>)"
proof (intro conjI allI impI)
  assume "outdir w = None"
  then show "verifyAll e cfg vo w = Inr ([Dir_not_found], False)"
    by (simp add: verifyAll_def existsSync_dir_def)
  with assms show "verify_main e cfg vo w = \<lparr>v_exit_code = 1, console = [Dir_not_found]\<rparr>"
    by (simp add: verify_main_def)
next
  fix es
  assume a: "outdir w = Some es
               \<and> (\<forall>f \<in> set (map fst es).
                     endsWith f (''.'' @ hashAlgorithm (output_cfg cfg))
                     \<or> endsWith f ''.json'' \<or> endsWith f ''.zip'')"
  then have none: "filter (is_binary_name cfg) (map fst es) = []"
    unfolding filter_empty_conv is_binary_name_def by blast
  with a show all: "verifyAll e cfg vo w = Inr ([Nothing_to_verify], True)"
    by (simp add: verifyAll_def existsSync_dir_def readdirSync_def)
  with assms show "verify_main e cfg vo w = \<lparr>v_exit_code = 0, console = [Nothing_to_verify]\<rparr>"
    by (simp add: verify_main_def)
qed


theorem bulk_verification_edge_cases_witness:
  "verify_main example_env documented_config bulk_mode \<lparr>outdir = None, trace = []\<rparr>
     = \<lparr>v_exit_code = 1, console = [Dir_not_found]\<rparr>
   \<and> verify_main example_env documented_config bulk_mode
       \<lparr>outdir = Some [(''app.sha256'', ''0000  app''), (''manifest.json'', ''recorded''),
                        (''app.zip'', ''PK'')], trace = []\<rparr>
     = \<lparr>v_exit_code = 0, console = [Nothing_to_verify]\<rparr>"
proof -
  let ?es = "[(''app.sha256'', ''0000  app''), (''manifest.json'', ''recorded''),
              (''app.zip'', ''PK'')]"
  have bulk: "\<not> truthy (v_file bulk_mode)" "\<not> v_manifest bulk_mode"
    by (simp_all add: bulk_mode_def truthy_def)
  have names: "\<forall>f \<in> set (map fst ?es).
                 endsWith f (''.'' @ hashAlgorithm (output_cfg documented_config))
                 \<or> endsWith f ''.json'' \<or> endsWith f ''.zip''"
    by (simp add: endsWith_def documented_config_def output_policy0_def)
  from bulk_verification_edge_cases[OF bulk, where w = "\<lparr>outdir = None, trace = []\<rparr>"
      and e = example_env and cfg = documented_config]
  have absent: "verify_main example_env documented_config bulk_mode \<lparr>outdir = None, trace = []\<rparr>
     = \<lparr>v_exit_code = 1, console = [Dir_not_found]\<rparr>"
    by simp
  from bulk_verification_edge_cases[OF bulk, where w = "\<lparr>outdir = Some ?es, trace = []\<rparr>"
      and e = example_env and cfg = documented_config] names
  have empty: "verify_main example_env documented_config bulk_mode \<lparr>outdir = Some ?es, trace = []\<rparr>
     = \<lparr>v_exit_code = 0, console = [Nothing_to_verify]\<rparr>"
    by simp
  show ?thesis by (intro conjI absent empty)
qed

section \<open>Properties of the hasher\<close>

lemma hex_digit_in: "hex_digit n \<in> set ''0123456789abcdef''"
  unfolding hex_digit_def by (rule nth_mem) simp

lemma hex_chars_not_space: "c \<in> set ''0123456789abcdef'' \<Longrightarrow> \<not> is_space c"
  by (auto simp: is_space_def)

lemma hex_encode_not_space: "c \<in> set (hex_encode bs) \<Longrightarrow> \<not> is_space c"
  by (auto simp: hex_encode_def intro!: hex_chars_not_space hex_digit_in)

lemma hex_encode_nonempty: "bs \<noteq> [] \<Longrightarrow> hex_encode bs \<noteq> []"
  by (cases bs) (simp_all add: hex_encode_def)

lemma split_from_token:
  "\<forall>c \<in> set d. \<not> is_space c \<Longrightarrow> split_from cur (d @ s) = split_from (rev d @ cur) s"
  by (induction d arbitrary: cur) simp_all

lemma hd_split_from:
  "s = [] \<or> is_space (hd s) \<Longrightarrow> hd (split_from cur s) = rev cur"
  by (cases s) auto

lemma js_trim_token:
  assumes "d \<noteq> []" and "\<forall>c \<in> set d. \<not> is_space c"
  shows "\<exists>zs. js_trim (d @ CHR '' '' # rest) = d @ zs \<and> (zs = [] \<or> is_space (hd zs))"
proof -
  have sp: "is_space CHR '' ''" by (simp add: is_space_def)
  from assms have first: "\<not> is_space (hd d)" by (cases d) simp_all
  from assms have lst: "\<not> is_space (hd (rev d))" by (cases d rule: rev_cases) simp_all
  from assms(1) first have front: "dropWhile is_space (d @ CHR '' '' # rest) = d @ CHR '' '' # rest"
    by (cases d) simp_all
  from assms(1) lst have rear: "dropWhile is_space (rev d) = rev d"
    by (simp add: dropWhile_eq_self_iff)
  show ?thesis
  proof (cases "\<forall>x \<in> set (rev rest). is_space x")
    case True
    then have "dropWhile is_space (rev (d @ CHR '' '' # rest)) = rev d"
      using sp rear by (simp add: dropWhile_append)
    then have "js_trim (d @ CHR '' '' # rest) = d @ []"
      by (simp add: js_trim_def front)
    then show ?thesis by blast
  next
    case False
    then have "dropWhile is_space (rev (d @ CHR '' '' # rest))
                 = dropWhile is_space (rev rest) @ CHR '' '' # rev d"
      by (auto simp: dropWhile_append)
    then have "js_trim (d @ CHR '' '' # rest)
                 = d @ CHR '' '' # rev (dropWhile is_space (rev rest))"
      by (simp add: js_trim_def front)
    with sp show ?thesis by auto
  qed
qed

lemma first_token:
  assumes "d \<noteq> []" and "\<forall>c \<in> set d. \<not> is_space c"
  shows "hd (split_ws (js_trim (d @ CHR '' '' # rest))) = d"
proof -
  from js_trim_token[OF assms] obtain zs
    where zs: "js_trim (d @ CHR '' '' # rest) = d @ zs" "zs = [] \<or> is_space (hd zs)" by blast
  show ?thesis
    unfolding zs(1) split_ws_def
    by (simp add: split_from_token[OF assms(2)] hd_split_from[OF zs(2)])
qed


lemma map_of_update_same: "map_of (AList.update k v al) k = Some v"
  by (simp add: update_conv')

lemma map_of_update_other: "k' \<noteq> k \<Longrightarrow> map_of (AList.update k v al) k' = map_of al k'"
  by (simp add: update_conv')

lemma buildTarget_success:
  assumes bt: "buildTarget e cfg opts t outDir w = (r, w')"
    and ok: "success r" and nd: "\<not> dryRun opts"
  shows "\<exists>written es bytes hf.
           run_pkg e (pkgCommand t (path_join outDir (outputName t))) = Exit_ok written
           \<and> outdir (pkg_writes (outputName t) written w) = Some es
           \<and> map_of es (outputName t) = Some bytes
           \<and> createHash e (hashAlgorithm (output_cfg cfg)) = Some hf
           \<and> r = result_ok (path_join outDir (outputName t)) (length bytes) (hex_encode (hf bytes))
           \<and> outdir w' = Some (AList.update (outputName t @ ''.'' @ hashAlgorithm (output_cfg cfg))
                                 (hex_encode (hf bytes) @ ''  '' @ outputName t @ [CHR 0x0A]) es)
           \<and> trace w' = trace w
                @ [Exec_start (pkgCommand t (path_join outDir (outputName t))),
                   Exec_done (pkgCommand t (path_join outDir (outputName t))),
                   Write (outputName t @ ''.'' @ hashAlgorithm (output_cfg cfg))
                         (hex_encode (hf bytes) @ ''  '' @ outputName t @ [CHR 0x0A])]"
  using bt ok nd
  unfolding buildTarget_def buildTarget_start_def buildTarget_finish_def Let_def
  by (auto simp: result_failed_def result_ok_def pkg_writes_def existsSync_def
        statSync_size_def readFileSync_def generateHash_def writeFileSync_def
      split: exec_outcome.splits sum.splits if_splits option.splits)


text \<open>
  Claim C3.  When a build succeeds (not a dry run) with a digest function that never
  returns the empty digest, the sidecar written last is the entry named artifact name,
  \<open>.\<close>, algorithm identifier; its content is the digest, two spaces, the artifact name
  and a newline; the recorded digest is the digest of the artifact's bytes as they are in
  the directory; the first white-space separated token of the sidecar is that digest;
  and \<open>verifyFile\<close> on the artifact succeeds with expected and actual digest equal.
\<close>

theorem sidecar_round_trip:
  assumes bt: "buildTarget e cfg opts t outDir w = (r, w')"
    and ok: "success r" and nd: "\<not> dryRun opts"
    and alg: "createHash e (hashAlgorithm (output_cfg cfg)) = Some h"
    and ne: "\<forall>bs. h bs \<noteq> []"
  shows "\<exists>d. hash r = Some d
           \<and> generateHash e cfg (outputName t) w' = Inr d
           \<and> last (trace w') = Write (outputName t @ ''.'' @ hashAlgorithm (output_cfg cfg))
                                      (d @ ''  '' @ outputName t @ [CHR 0x0A])
           \<and> readFileSync (outputName t @ ''.'' @ hashAlgorithm (output_cfg cfg)) w'
               = Inr (d @ ''  '' @ outputName t @ [CHR 0x0A])
           \<and> hd (split_ws (js_trim (d @ ''  '' @ outputName t @ [CHR 0x0A]))) = d
           \<and> verifyFile e cfg (outputName t) w' = Inr (compared (Some d) d)
           \<and> v_success (compared (Some d) d)"
proof -
  let ?name = "outputName t"
  let ?side = "outputName t @ ''.'' @ hashAlgorithm (output_cfg cfg)"
  from buildTarget_success[OF bt ok nd] alg obtain es bytes
    where es: "map_of es ?name = Some bytes"
      and r: "r = result_ok (path_join outDir ?name) (length bytes) (hex_encode (h bytes))"
      and out: "outdir w' = Some (AList.update ?side
                                 (hex_encode (h bytes) @ ''  '' @ ?name @ [CHR 0x0A]) es)"
      and tr: "trace w' = trace w
                @ [Exec_start (pkgCommand t (path_join outDir ?name)),
                   Exec_done (pkgCommand t (path_join outDir ?name)),
                   Write ?side (hex_encode (h bytes) @ ''  '' @ ?name @ [CHR 0x0A])]"
    by auto
  let ?d = "hex_encode (h bytes)"
  let ?content = "?d @ ''  '' @ ?name @ [CHR 0x0A]"
  have diff: "?name \<noteq> ?side" by simp
  have d1: "?d \<noteq> []" using ne by (simp add: hex_encode_nonempty)
  have d2: "\<forall>c \<in> set ?d. \<not> is_space c" by (simp add: hex_encode_not_space)
  have p1: "hash r = Some ?d" by (simp add: r result_ok_def)
  have art: "readFileSync ?name w' = Inr bytes"
    using es diff by (simp add: readFileSync_def out map_of_update_other)
  have p2: "generateHash e cfg ?name w' = Inr ?d"
    by (simp add: generateHash_def art alg)
  have p3: "last (trace w') = Write ?side ?content" by (simp add: tr)
  have p4: "readFileSync ?side w' = Inr ?content"
    by (simp add: readFileSync_def out map_of_update_same)
  have p5: "hd (split_ws (js_trim ?content)) = ?d"
    using first_token[OF d1 d2, of "CHR '' '' # ?name @ [CHR 0x0A]"] by simp
  have ex1: "existsSync ?name w'"
    using es diff by (simp add: existsSync_def out map_of_update_other)
  have ex2: "existsSync ?side w'"
    by (simp add: existsSync_def out map_of_update_same)
  have calc: "calculateHash e ?name (hashAlgorithm (output_cfg cfg)) w' = Inr ?d"
    by (simp add: calculateHash_def art alg)
  have p6: "verifyFile e cfg ?name w' = Inr (compared (Some ?d) ?d)"
    using ex1 ex2 p4 p5 calc by (simp add: verifyFile_def Let_def)
  have p7: "v_success (compared (Some ?d) ?d)" by (simp add: compared_def)
  from p1 p2 p3 p4 p5 p6 p7 show ?thesis by blast
qed


theorem sidecar_round_trip_witness:
  "\<exists>r w'. buildTarget example_env scenario_config no_filters linux_20 ''/repo/dist'' fresh_world
             = (r, w')
      \<and> success r \<and> \<not> dryRun no_filters
      \<and> hash r = Some ''0685''
      \<and> readFileSync (outputName linux_20 @ ''.sha256'') w'
          = Inr (''0685  mjml-linux-x64-node20'' @ [CHR 0x0A])
      \<and> verifyFile example_env scenario_config (outputName linux_20) w'
          = Inr (compared (Some ''0685'') ''0685'')"
proof -
  obtain r w'
    where bt: "buildTarget example_env scenario_config no_filters linux_20 ''/repo/dist''
                 fresh_world = (r, w')"
    by (cases "buildTarget example_env scenario_config no_filters linux_20 ''/repo/dist''
                 fresh_world")
  have "fst (buildTarget example_env scenario_config no_filters linux_20 ''/repo/dist''
               fresh_world)
          = result_ok ''/repo/dist/mjml-linux-x64-node20'' 6 ''0685''"
    by code_simp
  with bt have r: "r = result_ok ''/repo/dist/mjml-linux-x64-node20'' 6 ''0685''" by simp
  then have ok: "success r" and hash: "hash r = Some ''0685''"
    by (simp_all add: result_ok_def)
  have nd: "\<not> dryRun no_filters" by (simp add: no_filters_def)
  have sha: "hashAlgorithm (output_cfg scenario_config) = ''sha256''"
    by (simp add: scenario_config_def output_policy0_def)
  have alg: "createHash example_env (hashAlgorithm (output_cfg scenario_config)) = Some toy_digest"
    by (simp add: sha example_env_def)
  have ne: "\<forall>bs. toy_digest bs \<noteq> []" by (simp add: toy_digest_def)
  have name: "outputName linux_20 = ''mjml-linux-x64-node20''" by code_simp
  from sidecar_round_trip[OF bt ok nd alg ne] hash
  have "readFileSync (outputName linux_20 @ ''.'' @ hashAlgorithm (output_cfg scenario_config)) w'
          = Inr (''0685'' @ ''  '' @ outputName linux_20 @ [CHR 0x0A])
        \<and> verifyFile example_env scenario_config (outputName linux_20) w'
          = Inr (compared (Some ''0685'') ''0685'')"
    by auto
  then have "readFileSync (outputName linux_20 @ ''.sha256'') w'
          = Inr (''0685  mjml-linux-x64-node20'' @ [CHR 0x0A])
        \<and> verifyFile example_env scenario_config (outputName linux_20) w'
          = Inr (compared (Some ''0685'') ''0685'')"
    by (simp add: sha name)
  with bt ok nd hash show ?thesis by blast
qed

section \<open>Properties of the build executor\<close>

lemma in_flight_append: "in_flight (a @ b) = in_flight a + in_flight b"
  by (simp add: in_flight_def)

lemma levels_hd: "k \<in> set (levels k tr)"
  by (cases tr) simp_all

lemma levels_append:
  "set (levels k (a @ b)) = set (levels k a) \<union> set (levels (k + in_flight a) b)"
  by (induction a arbitrary: k) (auto simp: in_flight_def add.assoc levels_hd)

lemma levels_nonempty: "levels k tr \<noteq> []"
  by (cases tr) simp_all

lemma levels_last: "last (levels k tr) = k + in_flight tr"
  by (induction tr arbitrary: k) (auto simp: in_flight_def levels_nonempty)

text \<open>What one build adds to the world.\<close>

lemma buildTarget_start_dry: "dryRun opts \<Longrightarrow> buildTarget_start opts t outDir w = w"
  by (simp add: buildTarget_start_def)

lemma buildTarget_finish_dry:
  "dryRun opts \<Longrightarrow> buildTarget_finish e cfg opts t outDir w = (result_dry, w)"
  by (simp add: buildTarget_finish_def)

lemma buildTarget_start_effect:
  "\<not> dryRun opts \<Longrightarrow>
   buildTarget_start opts t outDir w
     = w\<lparr>trace := trace w @ [Exec_start (pkgCommand t (path_join outDir (outputName t)))]\<rparr>"
  by (simp add: buildTarget_start_def)

lemma buildTarget_finish_effect:
  assumes "\<not> dryRun opts"
  shows "\<exists>evs. trace (snd (buildTarget_finish e cfg opts t outDir w))
                 = trace w @ Exec_done (pkgCommand t (path_join outDir (outputName t))) # evs
             \<and> (evs = [] \<or> (\<exists>content. evs = [Write (outputName t @ ''.'' @ hashAlgorithm (output_cfg cfg)) content]))
             \<and> (outdir w \<noteq> None \<longrightarrow> outdir (snd (buildTarget_finish e cfg opts t outDir w)) \<noteq> None)"
  using assms
  unfolding buildTarget_finish_def Let_def
  by (auto simp: pkg_writes_def writeFileSync_def
      split: exec_outcome.splits sum.splits if_splits option.splits)

lemma buildTarget_finish_failed:
  "\<not> dryRun opts \<Longrightarrow>
   run_pkg e (pkgCommand t (path_join outDir (outputName t))) = Exit_failed msg \<Longrightarrow>
   fst (buildTarget_finish e cfg opts t outDir w) = result_failed msg"
  by (simp add: buildTarget_finish_def Let_def)



text \<open>The worker pool: one resumption, and invariants of the whole drain.\<close>

lemma worker_resume_last:
  "queue p = [] \<Longrightarrow>
   worker_resume e cfg opts outDir i p
     = p\<lparr>running := remove_nth i (running p),
          results := results p
            @ [(running p ! i, fst (buildTarget_finish e cfg opts (running p ! i) outDir (pworld p)))],
          pworld := snd (buildTarget_finish e cfg opts (running p ! i) outDir (pworld p))\<rparr>"
  by (simp add: worker_resume_def Let_def split: prod.splits)

lemma worker_resume_next:
  "queue p = t' # q \<Longrightarrow>
   worker_resume e cfg opts outDir i p
     = p\<lparr>queue := q, running := (running p)[i := t'],
          results := results p
            @ [(running p ! i, fst (buildTarget_finish e cfg opts (running p ! i) outDir (pworld p)))],
          pworld := buildTarget_start opts t' outDir
                      (snd (buildTarget_finish e cfg opts (running p ! i) outDir (pworld p)))\<rparr>"
  by (simp add: worker_resume_def Let_def split: prod.splits)

lemma drain_invariant:
  assumes "I p"
    and "\<And>p i. I p \<Longrightarrow> i < length (running p) \<Longrightarrow> I (worker_resume e cfg opts outDir i p)"
  shows "I (drain e cfg opts outDir sched p) \<and> running (drain e cfg opts outDir sched p) = []"
  using assms
proof (induction e cfg opts outDir sched p rule: drain.induct)
  case (1 e cfg opts outDir sched p)
  show ?case
  proof (cases "running p = []")
    case True
    with "1.prems"(1) show ?thesis by (subst (1 2) drain.simps) simp
  next
    case False
    then have "pick sched (length (running p)) < length (running p)"
      by (simp add: pick_less)
    with "1.prems"(1)
    have "I (worker_resume e cfg opts outDir (pick sched (length (running p))) p)"
      by (rule "1.prems"(2))
    from "1.IH"[OF False this "1.prems"(2)] False show ?thesis
      by (subst (1 2) drain.simps) simp
  qed
qed

lemma mset_remove_nth:
  "i < length xs \<Longrightarrow> add_mset (xs ! i) (mset (remove_nth i xs)) = mset xs"
proof -
  assume "i < length xs"
  then have "xs = take i xs @ xs ! i # drop (Suc i) xs" by (rule id_take_nth_drop)
  then have "mset xs = mset (take i xs @ xs ! i # drop (Suc i) xs)" by simp
  then show ?thesis by (simp add: remove_nth_def)
qed

lemma mset_replace_nth:
  "i < length xs \<Longrightarrow> add_mset (xs ! i) (mset (xs[i := v])) = add_mset v (mset xs)"
  by (simp add: mset_update)

definition accounted :: "job multiset \<Rightarrow> pool \<Rightarrow> bool" where
  "accounted M p =
     (mset (queue p) + mset (running p) + mset (map fst (results p)) = M
      \<and> (queue p \<noteq> [] \<longrightarrow> running p \<noteq> []))"

lemma accounted_resume:
  assumes "accounted M p" and "i < length (running p)"
  shows "accounted M (worker_resume e cfg opts outDir i p)"
proof (cases "queue p")
  case Nil
  let ?r = "fst (buildTarget_finish e cfg opts (running p ! i) outDir (pworld p))"
  from assms(1) Nil have M: "M = mset (running p) + mset (map fst (results p))"
    by (simp add: accounted_def)
  have "mset (remove_nth i (running p)) + mset (map fst (results p @ [(running p ! i, ?r)]))
          = add_mset (running p ! i) (mset (remove_nth i (running p))) + mset (map fst (results p))"
    by simp
  also have "\<dots> = M"
    unfolding mset_remove_nth[OF assms(2)] M ..
  finally show ?thesis
    unfolding accounted_def worker_resume_last[OF Nil] using Nil by simp
next
  case (Cons t' q)
  let ?r = "fst (buildTarget_finish e cfg opts (running p ! i) outDir (pworld p))"
  from assms(1) Cons
  have M: "M = add_mset t' (mset q) + mset (running p) + mset (map fst (results p))"
    by (simp add: accounted_def)
  have "mset q + mset ((running p)[i := t']) + mset (map fst (results p @ [(running p ! i, ?r)]))
          = mset q + add_mset (running p ! i) (mset ((running p)[i := t'])) + mset (map fst (results p))"
    by simp
  also have "\<dots> = mset q + add_mset t' (mset (running p)) + mset (map fst (results p))"
    unfolding mset_replace_nth[OF assms(2)] ..
  also have "\<dots> = M"
    unfolding M by simp
  finally have eq: "mset q + mset ((running p)[i := t'])
      + mset (map fst (results p @ [(running p ! i, ?r)])) = M" .
  from assms(2) have "(running p)[i := t'] \<noteq> []" by auto
  with eq show ?thesis
    unfolding accounted_def worker_resume_next[OF Cons] by simp
qed



lemma level_reached: "k + in_flight tr \<in> set (levels k tr)"
  using levels_last[of k tr] last_in_set[OF levels_nonempty[of k tr]] by simp

lemma finish_levels:
  assumes "\<not> dryRun opts"
  shows "in_flight (trace (snd (buildTarget_finish e cfg opts t outDir w)))
           = in_flight (trace w) - 1
         \<and> set (levels k (trace (snd (buildTarget_finish e cfg opts t outDir w))))
           = set (levels k (trace w)) \<union> {k + in_flight (trace w) - 1}"
proof -
  from buildTarget_finish_effect[OF assms, of e cfg t outDir w] obtain evs
    where tr: "trace (snd (buildTarget_finish e cfg opts t outDir w))
                 = trace w @ Exec_done (pkgCommand t (path_join outDir (outputName t))) # evs"
      and evs: "evs = [] \<or> (\<exists>content. evs
                  = [Write (outputName t @ ''.'' @ hashAlgorithm (output_cfg cfg)) content])"
    by blast
  from evs have fl: "in_flight evs = 0" by (auto simp: in_flight_def)
  from evs have lv: "\<And>m. set (levels m evs) = {m}" by auto
  have here: "k + in_flight (trace w) \<in> set (levels k (trace w))" by (rule level_reached)
  show ?thesis
    unfolding tr using fl lv here
    by (auto simp: in_flight_append levels_append in_flight_def)
qed

lemma start_levels:
  assumes "\<not> dryRun opts"
  shows "in_flight (trace (buildTarget_start opts t outDir w)) = in_flight (trace w) + 1
         \<and> set (levels k (trace (buildTarget_start opts t outDir w)))
           = set (levels k (trace w)) \<union> {k + in_flight (trace w) + 1}"
  using level_reached[of k "trace w"]
  by (auto simp: buildTarget_start_effect[OF assms] in_flight_append levels_append in_flight_def)

definition bounded :: "build_options \<Rightarrow> nat \<Rightarrow> pool \<Rightarrow> bool" where
  "bounded opts W p =
     (length (running p) \<le> W
      \<and> in_flight (trace (pworld p)) = (if dryRun opts then 0 else int (length (running p)))
      \<and> (\<forall>k \<in> set (levels 0 (trace (pworld p))). 0 \<le> k \<and> k \<le> int W))"

lemma length_remove_nth: "i < length xs \<Longrightarrow> length (remove_nth i xs) = length xs - 1"
  by (simp add: remove_nth_def)

lemma bounded_resume:
  assumes b: "bounded opts W p" and i: "i < length (running p)"
  shows "bounded opts W (worker_resume e cfg opts outDir i p)"
proof (cases "dryRun opts")
  case True
  with b i show ?thesis
    by (cases "queue p")
       (auto simp: bounded_def worker_resume_last worker_resume_next
          buildTarget_finish_dry buildTarget_start_dry length_remove_nth)
next
  case False
  let ?F = "buildTarget_finish e cfg opts (running p ! i) outDir (pworld p)"
  from b False have n: "in_flight (trace (pworld p)) = int (length (running p))"
    and len: "length (running p) \<le> W"
    and lv: "\<forall>k \<in> set (levels 0 (trace (pworld p))). 0 \<le> k \<and> k \<le> int W"
    by (simp_all add: bounded_def)
  note fin = finish_levels[OF False, of e cfg "running p ! i" outDir "pworld p" 0]
  show ?thesis
  proof (cases "queue p")
    case Nil
    from fin n len lv i False show ?thesis
      unfolding bounded_def worker_resume_last[OF Nil]
      by (auto simp: length_remove_nth)
  next
    case (Cons t' q)
    note st = start_levels[OF False, of t' outDir "snd ?F" 0]
    from fin st n len lv i False show ?thesis
      unfolding bounded_def worker_resume_next[OF Cons]
      by auto
  qed
qed

lemma buildTarget_start_outdir: "outdir (buildTarget_start opts t outDir w) = outdir w"
  by (simp add: buildTarget_start_def)

lemma buildTarget_finish_outdir:
  "outdir w \<noteq> None \<Longrightarrow> outdir (snd (buildTarget_finish e cfg opts t outDir w)) \<noteq> None"
  by (cases "dryRun opts")
     (use buildTarget_finish_effect[of opts e cfg t outDir w] in
        \<open>auto simp: buildTarget_finish_dry\<close>)

lemma buildTarget_start_extends:
  "\<exists>more. trace (buildTarget_start opts t outDir w) = trace w @ more"
  by (simp add: buildTarget_start_def)

lemma buildTarget_finish_extends:
  "\<exists>more. trace (snd (buildTarget_finish e cfg opts t outDir w)) = trace w @ more"
  by (cases "dryRun opts")
     (use buildTarget_finish_effect[of opts e cfg t outDir w] in
        \<open>auto simp: buildTarget_finish_dry\<close>)

lemma buildTarget_start_writes:
  "written_names (trace (buildTarget_start opts t outDir w)) = written_names (trace w)"
  by (simp add: buildTarget_start_def written_names_def)

lemma buildTarget_finish_writes:
  "set (written_names (trace (snd (buildTarget_finish e cfg opts t outDir w))))
     \<subseteq> insert (outputName t @ ''.'' @ hashAlgorithm (output_cfg cfg))
         (set (written_names (trace w)))"
  by (cases "dryRun opts")
     (use buildTarget_finish_effect[of opts e cfg t outDir w] in
        \<open>auto simp: buildTarget_finish_dry written_names_def\<close>)

text \<open>The pool keeps the directory, only appends to the trace, writes nothing but
  sidecars of its own jobs, and records for each job a result of that job's build.\<close>

definition well_kept ::
  "env \<Rightarrow> config \<Rightarrow> build_options \<Rightarrow> string \<Rightarrow> event list \<Rightarrow> job set \<Rightarrow> pool \<Rightarrow> bool" where
  "well_kept e cfg opts outDir tr0 J p =
     (outdir (pworld p) \<noteq> None
      \<and> (\<exists>more. trace (pworld p) = tr0 @ more)
      \<and> set (queue p) \<union> set (running p) \<subseteq> J
      \<and> set (written_names (trace (pworld p)))
          \<subseteq> set (written_names tr0)
            \<union> (\<lambda>t. outputName t @ ''.'' @ hashAlgorithm (output_cfg cfg)) ` J
      \<and> (\<forall>tr \<in> set (results p).
            fst tr \<in> J
            \<and> (\<exists>w. outdir w \<noteq> None
                   \<and> snd tr = fst (buildTarget_finish e cfg opts (fst tr) outDir w))))"

lemma well_kept_resume:
  assumes k: "well_kept e cfg opts outDir tr0 J p" and i: "i < length (running p)"
  shows "well_kept e cfg opts outDir tr0 J (worker_resume e cfg opts outDir i p)"
proof -
  let ?t = "running p ! i"
  let ?F = "buildTarget_finish e cfg opts ?t outDir (pworld p)"
  from k have od: "outdir (pworld p) \<noteq> None"
    and ext: "\<exists>more. trace (pworld p) = tr0 @ more"
    and js: "set (queue p) \<union> set (running p) \<subseteq> J"
    and wr: "set (written_names (trace (pworld p)))
          \<subseteq> set (written_names tr0)
            \<union> (\<lambda>t. outputName t @ ''.'' @ hashAlgorithm (output_cfg cfg)) ` J"
    and rs: "\<forall>tr \<in> set (results p).
            fst tr \<in> J
            \<and> (\<exists>w. outdir w \<noteq> None
                   \<and> snd tr = fst (buildTarget_finish e cfg opts (fst tr) outDir w))"
    by (simp_all add: well_kept_def)
  from i js have tJ: "?t \<in> J" by (meson UnCI nth_mem subsetD)
  have od': "outdir (snd ?F) \<noteq> None" by (rule buildTarget_finish_outdir[OF od])
  from ext buildTarget_finish_extends[of e cfg opts ?t outDir "pworld p"]
  have ext': "\<exists>more. trace (snd ?F) = tr0 @ more" by auto
  from wr tJ buildTarget_finish_writes[of e cfg opts ?t outDir "pworld p"]
  have wr': "set (written_names (trace (snd ?F)))
          \<subseteq> set (written_names tr0)
            \<union> (\<lambda>t. outputName t @ ''.'' @ hashAlgorithm (output_cfg cfg)) ` J"
    by blast
  from rs tJ od have rs': "\<forall>tr \<in> set (results p @ [(?t, fst ?F)]).
            fst tr \<in> J
            \<and> (\<exists>w. outdir w \<noteq> None
                   \<and> snd tr = fst (buildTarget_finish e cfg opts (fst tr) outDir w))"
    by auto
  show ?thesis
  proof (cases "queue p")
    case Nil
    from js have "set (remove_nth i (running p)) \<subseteq> J"
      by (auto simp: remove_nth_def dest: in_set_takeD in_set_dropD)
    with od' ext' wr' rs' Nil show ?thesis
      unfolding well_kept_def worker_resume_last[OF Nil] by simp
  next
    case (Cons t' q)
    from js Cons have "set q \<union> set ((running p)[i := t']) \<subseteq> J"
      using set_update_subset_insert[of "running p" i t'] by auto
    moreover from ext' buildTarget_start_extends[of opts t' outDir "snd ?F"]
    have "\<exists>more. trace (buildTarget_start opts t' outDir (snd ?F)) = tr0 @ more" by auto
    ultimately show ?thesis
      using od' wr' rs'
      unfolding well_kept_def worker_resume_next[OF Cons]
      by (simp add: buildTarget_start_outdir buildTarget_start_writes)
  qed
qed

text \<open>In a dry run a resumption leaves the world as it is.\<close>

lemma dry_resume:
  "dryRun opts \<Longrightarrow> pworld (worker_resume e cfg opts outDir i p) = pworld p"
  by (cases "queue p")
     (simp_all add: worker_resume_last worker_resume_next buildTarget_finish_dry
        buildTarget_start_dry)

text \<open>Outside a dry run the invocations started so far are those of the jobs that have a
  result or are in flight.\<close>

lemma invocations_append: "invocations (a @ b) = invocations a @ invocations b"
  by (simp add: invocations_def)

lemma invocations_quiet: "\<forall>ev \<in> set tr. delta ev = 0 \<Longrightarrow> invocations tr = []"
proof (induction tr)
  case Nil
  then show ?case by (simp add: invocations_def)
next
  case (Cons ev tr)
  then show ?case by (cases ev) (simp_all add: invocations_def)
qed

lemma finish_invocations:
  "invocations (trace (snd (buildTarget_finish e cfg opts t outDir w))) = invocations (trace w)"
proof (cases "dryRun opts")
  case True
  then show ?thesis by (simp add: buildTarget_finish_dry)
next
  case False
  from buildTarget_finish_effect[OF False, of e cfg t outDir w] obtain evs
    where tr: "trace (snd (buildTarget_finish e cfg opts t outDir w))
                 = trace w @ Exec_done (pkgCommand t (path_join outDir (outputName t))) # evs"
      and evs: "evs = [] \<or> (\<exists>content. evs
                  = [Write (outputName t @ ''.'' @ hashAlgorithm (output_cfg cfg)) content])"
    by blast
  from evs have "invocations evs = []" by (auto simp: invocations_def)
  then show ?thesis
    unfolding tr by (simp add: invocations_def)
qed

lemma start_invocations:
  "\<not> dryRun opts \<Longrightarrow>
   invocations (trace (buildTarget_start opts t outDir w))
     = invocations (trace w) @ [pkgCommand t (path_join outDir (outputName t))]"
  by (simp add: buildTarget_start_def invocations_def)

definition invoked :: "string \<Rightarrow> pool \<Rightarrow> bool" where
  "invoked outDir p =
     (mset (invocations (trace (pworld p)))
        = image_mset (\<lambda>t. pkgCommand t (path_join outDir (outputName t)))
            (mset (map fst (results p)) + mset (running p)))"

lemma invoked_resume:
  assumes nd: "\<not> dryRun opts" and inv: "invoked outDir p" and i: "i < length (running p)"
  shows "invoked outDir (worker_resume e cfg opts outDir i p)"
proof -
  let ?c = "\<lambda>t. pkgCommand t (path_join outDir (outputName t))"
  let ?t = "running p ! i"
  let ?F = "buildTarget_finish e cfg opts ?t outDir (pworld p)"
  from inv have base: "mset (invocations (trace (pworld p)))
        = image_mset ?c (mset (map fst (results p)) + mset (running p))"
    by (simp add: invoked_def)
  have fin: "invocations (trace (snd ?F)) = invocations (trace (pworld p))"
    by (rule finish_invocations)
  show ?thesis
  proof (cases "queue p")
    case Nil
    have "mset (map fst (results p @ [(?t, fst ?F)])) + mset (remove_nth i (running p))
            = mset (map fst (results p)) + add_mset ?t (mset (remove_nth i (running p)))"
      by simp
    also have "\<dots> = mset (map fst (results p)) + mset (running p)"
      unfolding mset_remove_nth[OF i] ..
    finally have eq: "mset (map fst (results p @ [(?t, fst ?F)]))
        + mset (remove_nth i (running p)) = mset (map fst (results p)) + mset (running p)" .
    have "mset (invocations (trace (snd ?F)))
            = image_mset ?c (mset (map fst (results p @ [(?t, fst ?F)]))
                             + mset (remove_nth i (running p)))"
      by (simp only: eq fin base)
    then show ?thesis
      unfolding invoked_def worker_resume_last[OF Nil] by simp
  next
    case (Cons t' q)
    have st: "invocations (trace (buildTarget_start opts t' outDir (snd ?F)))
                = invocations (trace (snd ?F)) @ [?c t']"
      by (rule start_invocations[OF nd])
    have "mset (map fst (results p @ [(?t, fst ?F)])) + mset ((running p)[i := t'])
            = mset (map fst (results p)) + add_mset ?t (mset ((running p)[i := t']))"
      by simp
    also have "\<dots> = mset (map fst (results p)) + add_mset t' (mset (running p))"
      unfolding mset_replace_nth[OF i] ..
    finally have eq: "mset (map fst (results p @ [(?t, fst ?F)])) + mset ((running p)[i := t'])
        = add_mset t' (mset (map fst (results p)) + mset (running p))"
      by simp
    have "mset (invocations (trace (buildTarget_start opts t' outDir (snd ?F))))
            = image_mset ?c (mset (map fst (results p @ [(?t, fst ?F)]))
                             + mset ((running p)[i := t']))"
      unfolding eq st by (simp add: fin base)
    then show ?thesis
      unfolding invoked_def worker_resume_next[OF Cons] by simp
  qed
qed

text \<open>The start of the pool: each of the workers takes one job.\<close>

lemma worker_start_take:
  "queue p = t # q \<Longrightarrow>
   worker_start opts outDir p
     = p\<lparr>queue := q, running := running p @ [t],
          pworld := buildTarget_start opts t outDir (pworld p)\<rparr>"
  by (simp add: worker_start_def)

definition starts :: "build_options \<Rightarrow> string \<Rightarrow> job list \<Rightarrow> event list" where
  "starts opts outDir ts =
     (if dryRun opts then []
      else map (\<lambda>t. Exec_start (pkgCommand t (path_join outDir (outputName t)))) ts)"

lemma spawn_shape:
  "n \<le> length (queue p) \<Longrightarrow>
   (worker_start opts outDir ^^ n) p
     = p\<lparr>queue := drop n (queue p), running := running p @ take n (queue p),
          pworld := (pworld p)\<lparr>trace := trace (pworld p) @ starts opts outDir (take n (queue p))\<rparr>\<rparr>"
proof (induction n arbitrary: p)
  case 0
  then show ?case by (simp add: starts_def)
next
  case (Suc n)
  then obtain t q where q: "queue p = t # q" by (cases "queue p") auto
  with Suc.prems have n: "n \<le> length (queue (worker_start opts outDir p))"
    by (simp add: worker_start_take)
  show ?case
    unfolding funpow_Suc_right o_apply Suc.IH[OF n]
    by (simp add: worker_start_take[OF q] q buildTarget_start_def starts_def)
qed

lemma in_flight_Nil: "in_flight [] = 0"
  by (simp add: in_flight_def)

lemma levels_quiet: "\<forall>ev \<in> set tr. delta ev = 0 \<Longrightarrow> set (levels k tr) = {k}"
  by (induction tr) auto

lemma in_flight_quiet: "\<forall>ev \<in> set tr. delta ev = 0 \<Longrightarrow> in_flight tr = 0"
  by (induction tr) (auto simp: in_flight_def)

lemma levels_starts:
  "set (levels k (map (\<lambda>t. Exec_start (f t)) ts)) = {k .. k + int (length ts)}"
  by (induction ts arbitrary: k) (auto simp: atLeastAtMost_def)

lemma in_flight_starts: "in_flight (map (\<lambda>t. Exec_start (f t)) ts) = int (length ts)"
  by (induction ts) (auto simp: in_flight_def)

lemma written_names_starts: "written_names (tr @ starts opts outDir ts) = written_names tr"
  by (induction ts) (auto simp: written_names_def starts_def)

lemma js_Array_slots: "0 \<le> W \<Longrightarrow> js_Array (of_int W) = Inr (nat W)"
  by (simp add: js_Array_def)

lemma invocations_starts:
  "\<not> dryRun opts \<Longrightarrow>
   invocations (starts opts outDir ts)
     = map (\<lambda>t. pkgCommand t (path_join outDir (outputName t))) ts"
  by (induction ts) (simp_all add: starts_def invocations_def)

lemma pool_run:
  assumes W: "min maxConc (of_nat (length matrix)) = of_int W" and W0: "0 \<le> W"
    and quiet: "\<forall>ev \<in> set (trace w). delta ev = 0"
    and od: "outdir w \<noteq> None"
  shows "\<exists>rs w'. buildWithConcurrency e cfg opts sched matrix outDir maxConc w = Inr (rs, w')
     \<and> (1 \<le> W \<longrightarrow> mset (map fst rs) = mset matrix)
     \<and> (\<forall>k \<in> set (levels 0 (trace w')). 0 \<le> k \<and> k \<le> W)
     \<and> (\<not> dryRun opts \<longrightarrow> W \<in> set (levels 0 (trace w')))
     \<and> (dryRun opts \<longrightarrow> w' = w)
     \<and> (\<not> dryRun opts \<longrightarrow>
           mset (invocations (trace w'))
             = image_mset (\<lambda>t. pkgCommand t (path_join outDir (outputName t)))
                 (mset (map fst rs)))
     \<and> in_flight (trace w') = 0
     \<and> outdir w' \<noteq> None
     \<and> (\<exists>more. trace w' = trace w @ more)
     \<and> set (written_names (trace w'))
         \<subseteq> set (written_names (trace w))
           \<union> (\<lambda>t. outputName t @ ''.'' @ hashAlgorithm (output_cfg cfg)) ` set matrix
     \<and> (\<forall>tr \<in> set rs. fst tr \<in> set matrix
           \<and> (\<exists>w. outdir w \<noteq> None
                  \<and> snd tr = fst (buildTarget_finish e cfg opts (fst tr) outDir w)))"
proof -
  define n where "n = nat W"
  define p0 where "p0 = \<lparr>queue = matrix, running = [], results = [], pworld = w\<rparr>"
  define p1 where "p1 = (worker_start opts outDir ^^ n) p0"
  define p2 where "p2 = drain e cfg opts outDir sched p1"
  from W0 have WK: "int n = W" by (simp add: n_def)
  have "(of_int W :: rat) \<le> of_nat (length matrix)"
    unfolding W[symmetric] by simp
  then have "W \<le> int (length matrix)"
    by (metis of_int_le_iff of_int_of_nat_eq)
  with WK have Wlen: "n \<le> length matrix" by linarith
  have run: "buildWithConcurrency e cfg opts sched matrix outDir maxConc w
               = Inr (results p2, pworld p2)"
    by (simp add: buildWithConcurrency_def W js_Array_slots[OF W0] Let_def
        p2_def p1_def p0_def n_def)
  have shape: "p1 = \<lparr>queue = drop n matrix, running = take n matrix, results = [],
                      pworld = w\<lparr>trace := trace w @ starts opts outDir (take n matrix)\<rparr>\<rparr>"
    unfolding p1_def using spawn_shape[of n p0 opts outDir] Wlen by (simp add: p0_def)
  let ?tr1 = "trace w @ starts opts outDir (take n matrix)"
  have fl1: "in_flight ?tr1 = (if dryRun opts then 0 else int n)"
    using Wlen by (simp add: in_flight_append in_flight_quiet[OF quiet] starts_def
        in_flight_starts min_absorb2 in_flight_Nil)
  have lv1: "\<forall>k \<in> set (levels 0 ?tr1). 0 \<le> k \<and> k \<le> int n"
    using Wlen by (auto simp: levels_append levels_quiet[OF quiet] in_flight_quiet[OF quiet]
        starts_def levels_starts min_absorb2)
  have b1: "bounded opts n p1"
    unfolding bounded_def shape using fl1 lv1 Wlen by (simp add: min_absorb2)
  have k1: "well_kept e cfg opts outDir ?tr1 (set matrix) p1"
    unfolding well_kept_def shape using od
    by (auto dest: in_set_takeD in_set_dropD)
  have inv: "(bounded opts n p2 \<and> well_kept e cfg opts outDir ?tr1 (set matrix) p2)
               \<and> running p2 = []"
    unfolding p2_def
    by (rule drain_invariant[where I = "\<lambda>p. bounded opts n p
          \<and> well_kept e cfg opts outDir ?tr1 (set matrix) p"])
       (use b1 k1 in \<open>auto intro: bounded_resume well_kept_resume\<close>)
  then have b2: "bounded opts n p2"
    and k2: "well_kept e cfg opts outDir ?tr1 (set matrix) p2"
    and r2: "running p2 = []" by simp_all
  have cover: "1 \<le> W \<longrightarrow> mset (map fst (results p2)) = mset matrix"
  proof
    assume one: "1 \<le> W"
    then have W1: "0 < n" by (simp add: n_def)
    have split: "mset (drop n matrix) + mset (take n matrix) = mset matrix"
      by (metis add.commute append_take_drop_id mset_append)
    have "drop n matrix \<noteq> [] \<longrightarrow> take n matrix \<noteq> []"
      using W1 by (cases matrix) auto
    with split have a1: "accounted (mset matrix) p1"
      unfolding accounted_def shape by simp
    have "accounted (mset matrix) p2 \<and> running p2 = []"
      unfolding p2_def
      by (rule drain_invariant[where I = "accounted (mset matrix)"])
         (use a1 in \<open>auto intro: accounted_resume\<close>)
    then show "mset (map fst (results p2)) = mset matrix"
      by (auto simp: accounted_def)
  qed
  have still: "dryRun opts \<longrightarrow> pworld p2 = w"
  proof
    assume dr: "dryRun opts"
    then have w1: "pworld p1 = w" unfolding shape by (simp add: starts_def)
    have "pworld p2 = w \<and> running p2 = []"
      unfolding p2_def
      by (rule drain_invariant[where I = "\<lambda>p. pworld p = w"])
         (use w1 dr in \<open>auto simp: dry_resume\<close>)
    then show "pworld p2 = w" by simp
  qed
  have calls: "\<not> dryRun opts \<longrightarrow>
           mset (invocations (trace (pworld p2)))
             = image_mset (\<lambda>t. pkgCommand t (path_join outDir (outputName t)))
                 (mset (map fst (results p2)))"
  proof
    assume nd: "\<not> dryRun opts"
    have i1: "invoked outDir p1"
      unfolding invoked_def shape
      by (simp add: invocations_append invocations_quiet[OF quiet] invocations_starts[OF nd])
    have "invoked outDir p2 \<and> running p2 = []"
      unfolding p2_def
      by (rule drain_invariant[where I = "invoked outDir"])
         (use i1 nd in \<open>auto intro: invoked_resume\<close>)
    then show "mset (invocations (trace (pworld p2)))
             = image_mset (\<lambda>t. pkgCommand t (path_join outDir (outputName t)))
                 (mset (map fst (results p2)))"
      by (simp add: invoked_def)
  qed
  from b2 r2 have fl2: "in_flight (trace (pworld p2)) = 0"
    and lv2: "\<forall>k \<in> set (levels 0 (trace (pworld p2))). 0 \<le> k \<and> k \<le> int n"
    by (simp_all add: bounded_def)
  from k2 obtain more where more: "trace (pworld p2) = ?tr1 @ more"
    by (auto simp: well_kept_def)
  have peak: "\<not> dryRun opts \<longrightarrow> int n \<in> set (levels 0 (trace (pworld p2)))"
  proof
    assume nd: "\<not> dryRun opts"
    with level_reached[of 0 ?tr1] fl1 have "int n \<in> set (levels 0 ?tr1)" by simp
    moreover have "set (levels 0 (?tr1 @ more))
        = set (levels 0 ?tr1) \<union> set (levels (0 + in_flight ?tr1) more)"
      by (rule levels_append)
    ultimately have "int n \<in> set (levels 0 (?tr1 @ more))" by blast
    then show "int n \<in> set (levels 0 (trace (pworld p2)))" by (simp only: more)
  qed
  from k2 have od2: "outdir (pworld p2) \<noteq> None"
    and wr2: "set (written_names (trace (pworld p2)))
         \<subseteq> set (written_names (trace w))
           \<union> (\<lambda>t. outputName t @ ''.'' @ hashAlgorithm (output_cfg cfg)) ` set matrix"
    and rs2: "\<forall>tr \<in> set (results p2). fst tr \<in> set matrix
           \<and> (\<exists>w. outdir w \<noteq> None
                  \<and> snd tr = fst (buildTarget_finish e cfg opts (fst tr) outDir w))"
    by (simp_all add: well_kept_def written_names_starts)
  have ext2: "\<exists>more. trace (pworld p2) = trace w @ more"
    unfolding more by simp
  show ?thesis
    using run cover lv2 peak still calls fl2 od2 ext2 wr2 rs2 unfolding WK by blast
qed

text \<open>A pool of one worker is the sequential loop.\<close>

lemma pick_one: "pick sched (Suc 0) = 0"
  by (simp add: pick_def split: list.splits)

lemma build_sequential_Cons:
  "build_sequential e cfg opts outDir (t # ts) w
     = ((t, fst (buildTarget e cfg opts t outDir w))
          # fst (build_sequential e cfg opts outDir ts (snd (buildTarget e cfg opts t outDir w))),
        snd (build_sequential e cfg opts outDir ts (snd (buildTarget e cfg opts t outDir w))))"
  by (simp add: Let_def split: prod.splits)

lemma drain_single:
  "drain e cfg opts outDir sched
     \<lparr>queue = ts, running = [t], results = acc, pworld = buildTarget_start opts t outDir w\<rparr>
     = \<lparr>queue = [], running = [],
        results = acc @ fst (build_sequential e cfg opts outDir (t # ts) w),
        pworld = snd (build_sequential e cfg opts outDir (t # ts) w)\<rparr>"
proof (induction ts arbitrary: t acc w sched)
  case Nil
  show ?case
    apply (subst drain.simps)
    apply (simp add: pick_one worker_resume_last remove_nth_def)
    apply (subst drain.simps)
    apply (simp add: buildTarget_def split: prod.splits)
    done
next
  case (Cons t' ts)
  show ?case
    apply (subst drain.simps)
    apply (simp add: pick_one worker_resume_next del: build_sequential.simps(2))
    apply (subst Cons.IH)
    apply (simp only: build_sequential_Cons[of e cfg opts outDir t "t' # ts" w])
    apply (simp add: buildTarget_def del: build_sequential.simps(2))
    done
qed

lemma single_worker:
  "buildWithConcurrency e cfg opts sched ts outDir 1 w
     = Inr (build_sequential e cfg opts outDir ts w)"
proof (cases ts)
  case Nil
  have "drain e cfg opts outDir sched \<lparr>queue = [], running = [], results = [], pworld = w\<rparr>
          = \<lparr>queue = [], running = [], results = [], pworld = w\<rparr>"
    by (subst drain.simps) simp
  with Nil show ?thesis
    by (simp add: buildWithConcurrency_def js_Array_def Let_def)
next
  case (Cons t ts')
  have "js_Array (min 1 (of_nat (length ts))) = Inr 1"
    using js_Array_slots[of 1] by (simp add: Cons min_def)
  with Cons show ?thesis
    by (simp add: buildWithConcurrency_def Let_def worker_start_take drain_single
        del: build_sequential.simps(2))
qed

lemma build_sequential_order: "map fst (fst (build_sequential e cfg opts outDir ts w)) = ts"
  by (induction ts arbitrary: w)
     (simp_all add: build_sequential_Cons del: build_sequential.simps(2))

text \<open>A pool without workers, and a pool that cannot be created.\<close>

lemma pool_unstarted:
  assumes "min maxConc (of_nat (length matrix)) = 0"
  shows "buildWithConcurrency e cfg opts sched matrix outDir maxConc w = Inr ([], w)"
proof -
  have "drain e cfg opts outDir sched \<lparr>queue = matrix, running = [], results = [], pworld = w\<rparr>
          = \<lparr>queue = matrix, running = [], results = [], pworld = w\<rparr>"
    by (subst drain.simps) simp
  then show ?thesis
    by (simp add: buildWithConcurrency_def assms js_Array_def Let_def)
qed

lemma pool_refused:
  assumes "min maxConc (of_nat (length matrix)) < 0
         \<or> of_int \<lfloor>min maxConc (of_nat (length matrix))\<rfloor> \<noteq> min maxConc (of_nat (length matrix))"
  shows "buildWithConcurrency e cfg opts sched matrix outDir maxConc w
           = Inl ''RangeError: Invalid array length''"
  using assms by (auto simp: buildWithConcurrency_def js_Array_def)

text \<open>The preparation of the output directory.\<close>

lemma unlink_all_entries:
  "outdir w = Some es \<Longrightarrow>
   unlink_all (map fst es) w
     = Inr (w\<lparr>outdir := Some [], trace := trace w @ map Unlink (map fst es)\<rparr>)"
proof (induction es arbitrary: w)
  case Nil
  then show ?case by simp
next
  case (Cons a es)
  let ?w = "w\<lparr>outdir := Some es, trace := trace w @ [Unlink (fst a)]\<rparr>"
  from Cons.prems have "unlinkSync (fst a) w = Inr ?w"
    by (simp add: unlinkSync_def existsSync_def)
  moreover have "unlink_all (map fst es) ?w
      = Inr (?w\<lparr>outdir := Some [], trace := trace ?w @ map Unlink (map fst es)\<rparr>)"
    by (rule Cons.IH) simp
  ultimately show ?case by simp
qed

definition prepared :: "world \<Rightarrow> bool" where
  "prepared w = (outdir w \<noteq> None \<and> (\<forall>ev \<in> set (trace w). delta ev = 0)
                 \<and> written_names (trace w) = [])"

lemma ensureOutputDir_prepared: "prepared (ensureOutputDir \<lparr>outdir = fs0, trace = []\<rparr>)"
  by (cases fs0)
     (simp_all add: prepared_def ensureOutputDir_def existsSync_dir_def mkdirSync_def
        written_names_def)

lemma clean_prepared:
  assumes "prepared w"
  shows "\<exists>w'. clean_outputDir w = Inr w' \<and> prepared w'"
proof -
  from assms obtain es where es: "outdir w = Some es" by (auto simp: prepared_def)
  have "clean_outputDir w
          = Inr (w\<lparr>outdir := Some [], trace := trace w @ map Unlink (map fst es)\<rparr>)"
    by (simp add: clean_outputDir_def readdirSync_def es unlink_all_entries[OF es])
  moreover have "prepared (w\<lparr>outdir := Some [], trace := trace w @ map Unlink (map fst es)\<rparr>)"
    using assms by (auto simp: prepared_def written_names_def)
  ultimately show ?thesis by blast
qed

lemma build_main_unfold:
  "build_main e cfg opts sched fs0 = aborted \<lparr>outdir = fs0, trace = []\<rparr>
     \<and> generateBuildMatrix cfg opts = []
   \<or> (\<exists>w2. prepared w2 \<and> generateBuildMatrix cfg opts \<noteq> []
          \<and> build_main e cfg opts sched fs0
            = (case run_jobs e cfg opts sched (generateBuildMatrix cfg opts)
                      (outputDir_of e cfg) w2 of
                 Inl err \<Rightarrow> aborted w2
               | Inr (rs, w3) \<Rightarrow> conclude e rs w3))"
proof (cases "generateBuildMatrix cfg opts = []")
  case True
  then show ?thesis by (simp add: build_main_def)
next
  case False
  let ?w1 = "ensureOutputDir \<lparr>outdir = fs0, trace = []\<rparr>"
  have p1: "prepared ?w1" by (rule ensureOutputDir_prepared)
  show ?thesis
  proof (cases "cleanBeforeBuild (build_cfg cfg) \<and> \<not> single opts")
    case True
    from clean_prepared[OF p1] obtain w2
      where "clean_outputDir ?w1 = Inr w2" and "prepared w2" by blast
    with False True show ?thesis
      by (intro disjI2 exI[of _ w2]) (simp add: build_main_def Let_def)
  next
    case no_clean: False
    with False p1 show ?thesis
      by (intro disjI2 exI[of _ ?w1]) (auto simp: build_main_def Let_def)
  qed
qed

text \<open>What a completed run of the jobs leaves behind, with at most \<open>W\<close> in flight.\<close>

definition run_facts ::
  "env \<Rightarrow> config \<Rightarrow> build_options \<Rightarrow> string \<Rightarrow> job list \<Rightarrow> int \<Rightarrow> world
     \<Rightarrow> (job \<times> build_result) list \<Rightarrow> world \<Rightarrow> bool" where
  "run_facts e cfg opts outDir matrix W w rs w' =
     ((\<forall>k \<in> set (levels 0 (trace w')). 0 \<le> k \<and> k \<le> W)
      \<and> (\<not> dryRun opts \<longrightarrow> W \<in> set (levels 0 (trace w')))
      \<and> (dryRun opts \<longrightarrow> w' = w)
      \<and> (\<not> dryRun opts \<longrightarrow>
            mset (invocations (trace w'))
              = image_mset (\<lambda>t. pkgCommand t (path_join outDir (outputName t)))
                  (mset (map fst rs)))
      \<and> in_flight (trace w') = 0
      \<and> outdir w' \<noteq> None
      \<and> (\<exists>more. trace w' = trace w @ more)
      \<and> set (written_names (trace w'))
          \<subseteq> set (written_names (trace w))
            \<union> (\<lambda>t. outputName t @ ''.'' @ hashAlgorithm (output_cfg cfg)) ` set matrix
      \<and> (\<forall>tr \<in> set rs. fst tr \<in> set matrix
            \<and> (\<exists>w. outdir w \<noteq> None
                   \<and> snd tr = fst (buildTarget_finish e cfg opts (fst tr) outDir w))))"

definition workers_used :: "config \<Rightarrow> nat \<Rightarrow> int" where
  "workers_used cfg n =
     (if parallel (build_cfg cfg) \<and> 1 < n
      then \<lfloor>min (maxConcurrency (build_cfg cfg)) (of_nat n)\<rfloor>
      else min 1 (int n))"

lemma pool_run_facts:
  assumes "min maxConc (of_nat (length matrix)) = of_int W" and "0 \<le> W" and "prepared w"
  shows "\<exists>rs w'. buildWithConcurrency e cfg opts sched matrix outDir maxConc w = Inr (rs, w')
     \<and> (1 \<le> W \<longrightarrow> mset (map fst rs) = mset matrix)
     \<and> run_facts e cfg opts outDir matrix W w rs w'"
proof -
  from assms(3) have q: "\<forall>ev \<in> set (trace w). delta ev = 0" and od: "outdir w \<noteq> None"
    by (simp_all add: prepared_def)
  from pool_run[OF assms(1,2) q od, of e cfg opts sched outDir]
  show ?thesis unfolding run_facts_def by blast
qed

lemma run_jobs_completes:
  fixes cfg :: config and matrix :: "job list"
  defines "m \<equiv> min (maxConcurrency (build_cfg cfg)) (of_nat (length matrix))"
  assumes p: "prepared w"
    and K: "parallel (build_cfg cfg) \<and> 1 < length matrix \<longrightarrow> 0 \<le> m \<and> of_int \<lfloor>m\<rfloor> = m"
  shows "\<exists>rs w'. run_jobs e cfg opts sched matrix outDir w = Inr (rs, w')
     \<and> ((parallel (build_cfg cfg) \<and> 1 < length matrix \<longrightarrow> 1 \<le> m)
          \<longrightarrow> mset (map fst rs) = mset matrix)
     \<and> (parallel (build_cfg cfg) \<and> 1 < length matrix \<and> m = 0 \<longrightarrow> rs = [])
     \<and> (\<not> (parallel (build_cfg cfg) \<and> 1 < length matrix)
          \<longrightarrow> (rs, w') = build_sequential e cfg opts outDir matrix w \<and> map fst rs = matrix)
     \<and> run_facts e cfg opts outDir matrix (workers_used cfg (length matrix)) w rs w'"
proof (cases "parallel (build_cfg cfg) \<and> 1 < length matrix")
  case True
  define W where "W = \<lfloor>m\<rfloor>"
  from True K have m0: "0 \<le> m" and fl: "of_int \<lfloor>m\<rfloor> = m" by blast+
  have mW: "m = of_int W" unfolding W_def by (rule fl[symmetric])
  from m0 have W0: "0 \<le> W" by (simp add: W_def)
  have wu: "workers_used cfg (length matrix) = W"
    using True by (simp add: workers_used_def W_def m_def)
  from pool_run_facts[OF mW[unfolded m_def] W0 p, of e cfg opts sched outDir] obtain rs w'
    where run: "buildWithConcurrency e cfg opts sched matrix outDir
                  (maxConcurrency (build_cfg cfg)) w = Inr (rs, w')"
      and cover: "1 \<le> W \<longrightarrow> mset (map fst rs) = mset matrix"
      and facts: "run_facts e cfg opts outDir matrix W w rs w'"
    by blast
  have one: "1 \<le> m \<longleftrightarrow> 1 \<le> W" unfolding mW by simp
  have zero: "m = 0 \<longrightarrow> rs = []"
    using run pool_unstarted[of "maxConcurrency (build_cfg cfg)" matrix e cfg opts sched outDir w]
    by (auto simp: m_def)
  from True run cover facts zero one wu show ?thesis
    by (simp add: run_jobs_def)
next
  case False
  obtain rs w' where seq: "build_sequential e cfg opts outDir matrix w = (rs, w')"
    by (cases "build_sequential e cfg opts outDir matrix w")
  have "min (1::rat) (of_nat (length matrix)) = of_int (min 1 (int (length matrix)))"
    by (simp add: min_def)
  from pool_run_facts[OF this _ p, of e cfg opts sched outDir] seq
  have facts: "run_facts e cfg opts outDir matrix (min 1 (int (length matrix))) w rs w'"
    by (simp add: single_worker)
  from build_sequential_order[of e cfg opts outDir matrix w] seq
  have ord: "map fst rs = matrix" by simp
  then have cover: "mset (map fst rs) = mset matrix" by (metis mset_map)
  from False seq cover facts ord show ?thesis
    by (auto simp: run_jobs_def workers_used_def)
qed

text \<open>The end of the build script.\<close>

lemma some_success: "0 < length (filter P xs) \<longleftrightarrow> (\<exists>x \<in> set xs. P x)"
  by (simp add: filter_empty_conv)

lemma conclude_results: "run_results (conclude e rs w) = rs"
  by (simp add: conclude_def Let_def split: sum.splits)


lemma conclude_quiet:
  "\<not> (\<exists>tr \<in> set rs. success (snd tr)) \<Longrightarrow> final_world (conclude e rs w) = w"
  using some_success[of "\<lambda>r. success (snd r)" rs]
  by (simp add: conclude_def Let_def)

lemma conclude_writes:
  assumes "\<exists>tr \<in> set rs. success (snd tr)" and "outdir w = Some es"
  shows "final_world (conclude e rs w)
           = w\<lparr>outdir := Some (AList.update ''manifest.json''
                                 (JSON_stringify e (manifest_of e rs)) es),
                trace := trace w @ [Write ''manifest.json''
                                      (JSON_stringify e (manifest_of e rs))]\<rparr>"
  using assms some_success[of "\<lambda>r. success (snd r)" rs]
  by (simp add: conclude_def Let_def writeFileSync_def)



lemma outputName_dash:
  "t \<in> set (generateBuildMatrix cfg opts) \<Longrightarrow> CHR ''-'' \<in> set (outputName t)"
  by (auto simp: generateBuildMatrix_def make_job_def getBinaryName_def)

lemma sidecar_not_manifest:
  "t \<in> set (generateBuildMatrix cfg opts) \<Longrightarrow> outputName t @ ''.'' @ a \<noteq> ''manifest.json''"
proof
  assume t: "t \<in> set (generateBuildMatrix cfg opts)"
    and eq: "outputName t @ ''.'' @ a = ''manifest.json''"
  from outputName_dash[OF t] have "CHR ''-'' \<in> set (outputName t @ ''.'' @ a)" by simp
  then have "CHR ''-'' \<in> set ''manifest.json''" by (simp only: eq)
  then show False by simp
qed

lemma aborted_fields:
  "run_results (aborted w) = []" "run_summary (aborted w) = None"
  "final_world (aborted w) = w" "exit_code (aborted w) = 1"
  by (simp_all add: aborted_def)

lemma build_main_outcome:
  fixes e cfg opts sched fs0
  defines "R \<equiv> build_main e cfg opts sched fs0"
    and "M \<equiv> generateBuildMatrix cfg opts"
  defines "m \<equiv> min (maxConcurrency (build_cfg cfg)) (of_nat (length M))"
  shows "((M = [] \<or> parallel (build_cfg cfg) \<and> 1 < length M \<and> (m < 0 \<or> of_int \<lfloor>m\<rfloor> \<noteq> m))
          \<and> run_results R = []
          \<and> run_summary R = None
          \<and> written_names (trace (final_world R)) = []
          \<and> invocations (trace (final_world R)) = []
          \<and> exit_code R = 1)
   \<or> (M \<noteq> []
       \<and> (parallel (build_cfg cfg) \<and> 1 < length M \<longrightarrow> 0 \<le> m \<and> of_int \<lfloor>m\<rfloor> = m)
       \<and> (\<exists>w2 rs w3.
            prepared w2
            \<and> run_jobs e cfg opts sched M (outputDir_of e cfg) w2 = Inr (rs, w3)
            \<and> R = conclude e rs w3
            \<and> ((parallel (build_cfg cfg) \<and> 1 < length M \<longrightarrow> 1 \<le> m)
                 \<longrightarrow> mset (map fst rs) = mset M)
            \<and> (parallel (build_cfg cfg) \<and> 1 < length M \<and> m = 0 \<longrightarrow> rs = [])
            \<and> (\<not> (parallel (build_cfg cfg) \<and> 1 < length M)
                 \<longrightarrow> (rs, w3) = build_sequential e cfg opts (outputDir_of e cfg) M w2
                     \<and> map fst rs = M)
            \<and> run_facts e cfg opts (outputDir_of e cfg) M
                  (workers_used cfg (length M)) w2 rs w3))"
proof -
  from build_main_unfold[of e cfg opts sched fs0]
  consider (empty) "R = aborted \<lparr>outdir = fs0, trace = []\<rparr>" "M = []"
    | (planned) w2 where "prepared w2" "M \<noteq> []"
        "R = (case run_jobs e cfg opts sched M (outputDir_of e cfg) w2 of
                 Inl err \<Rightarrow> aborted w2
               | Inr (rs, w3) \<Rightarrow> conclude e rs w3)"
    unfolding R_def M_def by blast
  then show ?thesis
  proof cases
    case empty
    then show ?thesis by (simp add: aborted_fields written_names_def invocations_def)
  next
    case planned
    from planned(1) have calm: "invocations (trace w2) = []"
      by (simp add: prepared_def invocations_quiet)
    show ?thesis
    proof (cases "parallel (build_cfg cfg) \<and> 1 < length M
                    \<and> (m < 0 \<or> of_int \<lfloor>m\<rfloor> \<noteq> m)")
      case True
      then have "run_jobs e cfg opts sched M (outputDir_of e cfg) w2
                   = Inl ''RangeError: Invalid array length''"
        unfolding m_def by (simp add: run_jobs_def pool_refused)
      with planned True calm show ?thesis
        by (simp add: aborted_fields prepared_def)
    next
      case False
      then have K: "parallel (build_cfg cfg) \<and> 1 < length M
                      \<longrightarrow> 0 \<le> m \<and> of_int \<lfloor>m\<rfloor> = m" by auto
      from run_jobs_completes[OF planned(1) K[unfolded m_def],
          where e = e and opts = opts and sched = sched and outDir = "outputDir_of e cfg"]
      obtain rs w3
        where run: "run_jobs e cfg opts sched M (outputDir_of e cfg) w2 = Inr (rs, w3)"
          and rest: "((parallel (build_cfg cfg) \<and> 1 < length M \<longrightarrow> 1 \<le> m)
                      \<longrightarrow> mset (map fst rs) = mset M)
            \<and> (parallel (build_cfg cfg) \<and> 1 < length M \<and> m = 0 \<longrightarrow> rs = [])
            \<and> (\<not> (parallel (build_cfg cfg) \<and> 1 < length M)
                  \<longrightarrow> (rs, w3) = build_sequential e cfg opts (outputDir_of e cfg) M w2
                      \<and> map fst rs = M)
            \<and> run_facts e cfg opts (outputDir_of e cfg) M
                  (workers_used cfg (length M)) w2 rs w3"
        unfolding m_def by blast
      from planned(3) run have "R = conclude e rs w3" by simp
      with planned(1,2) K run rest show ?thesis by blast
    qed
  qed
qed

text \<open>
  Claim C5.  In every run of the build script the manifest is written if and only if at
  least one job succeeded.  When it is written it is written once, as the last effect of
  the run, and the file then holds the printed manifest of this run alone, whatever
  \<open>manifest.json\<close> held before; its build list is the list of the successful results,
  each with name, platform, runtime version, digest and size, and none of the failed ones.
\<close>

theorem manifest_written_iff:
  fixes e cfg opts sched fs0
  defines "run \<equiv> build_main e cfg opts sched fs0"
  shows "(''manifest.json'' \<in> set (written_names (trace (final_world run)))
            \<longleftrightarrow> (\<exists>tr \<in> set (run_results run). success (snd tr)))
     \<and> ((\<exists>tr \<in> set (run_results run). success (snd tr)) \<longrightarrow>
           readFileSync ''manifest.json'' (final_world run)
             = Inr (JSON_stringify e (manifest_of e (run_results run)))
           \<and> last (trace (final_world run))
             = Write ''manifest.json'' (JSON_stringify e (manifest_of e (run_results run)))
           \<and> count_list (written_names (trace (final_world run))) ''manifest.json'' = 1)
     \<and> builds (manifest_of e (run_results run))
         = map (\<lambda>tr. \<lparr>m_name = outputName (fst tr), m_platform = platform (fst tr),
                       m_nodeVersion = nodeVersion (fst tr), m_hash = hash (snd tr),
                       m_size = size_bytes (snd tr)\<rparr>)
             (filter (\<lambda>tr. success (snd tr)) (run_results run))"
proof -
  let ?M = "generateBuildMatrix cfg opts"
  have entries: "builds (manifest_of e (run_results run))
         = map (\<lambda>tr. \<lparr>m_name = outputName (fst tr), m_platform = platform (fst tr),
                       m_nodeVersion = nodeVersion (fst tr), m_hash = hash (snd tr),
                       m_size = size_bytes (snd tr)\<rparr>)
             (filter (\<lambda>tr. success (snd tr)) (run_results run))"
    by (simp add: manifest_of_def)
  from build_main_outcome[where e = e and cfg = cfg and opts = opts and sched = sched
      and ?fs0.0 = fs0]
  consider (nothing) "run_results run = []"
      "written_names (trace (final_world run)) = []"
    | (ran) w2 rs w3 where "prepared w2" "run = conclude e rs w3"
        "run_facts e cfg opts (outputDir_of e cfg) ?M (workers_used cfg (length ?M)) w2 rs w3"
    unfolding run_def by blast
  then have "(''manifest.json'' \<in> set (written_names (trace (final_world run)))
            \<longleftrightarrow> (\<exists>tr \<in> set (run_results run). success (snd tr)))
     \<and> ((\<exists>tr \<in> set (run_results run). success (snd tr)) \<longrightarrow>
           readFileSync ''manifest.json'' (final_world run)
             = Inr (JSON_stringify e (manifest_of e (run_results run)))
           \<and> last (trace (final_world run))
             = Write ''manifest.json'' (JSON_stringify e (manifest_of e (run_results run)))
           \<and> count_list (written_names (trace (final_world run))) ''manifest.json'' = 1)"
  proof cases
    case nothing
    then show ?thesis by simp
  next
    case ran
    from ran(1) have none: "written_names (trace w2) = []" by (simp add: prepared_def)
    from ran(3) obtain es where es: "outdir w3 = Some es"
      by (auto simp: run_facts_def)
    from ran(3) none
    have sub: "set (written_names (trace w3))
        \<subseteq> (\<lambda>t. outputName t @ ''.'' @ hashAlgorithm (output_cfg cfg)) ` set ?M"
      by (simp add: run_facts_def)
    have fresh: "''manifest.json'' \<notin> set (written_names (trace w3))"
    proof
      assume "''manifest.json'' \<in> set (written_names (trace w3))"
      with sub obtain t where "t \<in> set ?M"
        and "''manifest.json'' = outputName t @ ''.'' @ hashAlgorithm (output_cfg cfg)"
        by blast
      with sidecar_not_manifest[of t cfg opts "hashAlgorithm (output_cfg cfg)"]
      show False by simp
    qed
    have rr: "run_results run = rs" by (simp add: ran(2) conclude_results)
    show ?thesis
    proof (cases "\<exists>tr \<in> set rs. success (snd tr)")
      case True
      let ?doc = "JSON_stringify e (manifest_of e rs)"
      from conclude_writes[OF True es, of e]
      have fw: "final_world run
                  = w3\<lparr>outdir := Some (AList.update ''manifest.json'' ?doc es),
                        trace := trace w3 @ [Write ''manifest.json'' ?doc]\<rparr>"
        by (simp add: ran(2))
      have names: "written_names (trace (final_world run))
                     = written_names (trace w3) @ [''manifest.json'']"
        by (simp add: fw written_names_def)
      have once: "count_list (written_names (trace (final_world run))) ''manifest.json'' = 1"
        unfolding names using fresh by (simp add: count_list_0_iff)
      have rd: "readFileSync ''manifest.json'' (final_world run) = Inr ?doc"
        by (simp add: fw readFileSync_def map_of_update_same)
      have mem: "''manifest.json'' \<in> set (written_names (trace (final_world run)))"
        by (simp add: names)
      have lst: "last (trace (final_world run)) = Write ''manifest.json'' ?doc"
        by (simp add: fw)
      from True mem rd lst once show ?thesis
        unfolding rr by blast
    next
      case False
      then have "final_world run = w3" by (simp add: ran(2) conclude_quiet)
      with False fresh show ?thesis by (simp add: rr)
    qed
  qed
  with entries show ?thesis by blast
qed

lemma buildTarget_exec_events:
  assumes "\<not> dryRun opts"
  shows "exec_events (trace (snd (buildTarget e cfg opts t outDir w)))
           = exec_events (trace w)
             @ [Exec_start (pkgCommand t (path_join outDir (outputName t))),
                Exec_done (pkgCommand t (path_join outDir (outputName t)))]"
proof -
  let ?w1 = "buildTarget_start opts t outDir w"
  from buildTarget_finish_effect[OF assms, of e cfg t outDir ?w1] obtain evs
    where tr: "trace (snd (buildTarget_finish e cfg opts t outDir ?w1))
                 = trace ?w1 @ Exec_done (pkgCommand t (path_join outDir (outputName t))) # evs"
      and evs: "evs = [] \<or> (\<exists>content. evs
                  = [Write (outputName t @ ''.'' @ hashAlgorithm (output_cfg cfg)) content])"
    by blast
  from evs have "exec_events evs = []" by (auto simp: exec_events_def)
  then show ?thesis
    unfolding buildTarget_def tr
    by (simp add: buildTarget_start_effect[OF assms] exec_events_def)
qed

lemma build_sequential_exec_events:
  assumes "\<not> dryRun opts"
  shows "exec_events (trace (snd (build_sequential e cfg opts outDir ts w)))
           = exec_events (trace w)
             @ concat (map (\<lambda>t. [Exec_start (pkgCommand t (path_join outDir (outputName t))),
                                  Exec_done (pkgCommand t (path_join outDir (outputName t)))]) ts)"
  by (induction ts arbitrary: w)
     (simp_all add: build_sequential_Cons buildTarget_exec_events[OF assms]
        del: build_sequential.simps(2))

lemma exec_events_quiet: "\<forall>ev \<in> set tr. delta ev = 0 \<Longrightarrow> exec_events tr = []"
  by (simp add: exec_events_def filter_empty_conv)

text \<open>
  Claim C6 (amended).  The jobs are started in a state where the output directory exists
  and nothing has been invoked or written yet, as the build script starts them.

  With parallel execution enabled and two jobs or more, let \<open>K\<close> be the concurrency
  limit and \<open>N\<close> the number of jobs, and let \<open>min K N\<close> be an integer \<open>W\<close> of at
  least one (as it is for every integer \<open>K\<close> of at least one).  Then the run is that of
  the worker pool: the array of workers has exactly \<open>W\<close> slots, the \<open>W\<close> workers
  take the first \<open>W\<close> jobs of the plan and leave the others in the queue, every job
  completes exactly once, no invocation is left in flight, and the number of invocations in
  flight is at every moment at most \<open>W\<close>, hence at most \<open>K\<close>.  Outside a dry run
  that number is reached; in a dry run nothing is invoked and the world stays as it was.

  With parallel execution disabled, or with fewer than two jobs, the run is the
  sequential loop whatever the limit is: results in plan order, at most one invocation in
  flight, and outside a dry run the invocations started and completed one after the other
  in plan order.
\<close>

theorem bounded_concurrency:
  assumes p: "prepared w"
  shows "(parallel (build_cfg cfg) \<and> 1 < length matrix
          \<and> min (maxConcurrency (build_cfg cfg)) (of_nat (length matrix)) = of_int W
          \<and> 1 \<le> W \<longrightarrow>
           (\<exists>rs w'. run_jobs e cfg opts sched matrix outDir w = Inr (rs, w')
              \<and> buildWithConcurrency e cfg opts sched matrix outDir
                    (maxConcurrency (build_cfg cfg)) w = Inr (rs, w')
              \<and> js_Array (min (maxConcurrency (build_cfg cfg)) (of_nat (length matrix)))
                  = Inr (nat W)
              \<and> running ((worker_start opts outDir ^^ nat W)
                             \<lparr>queue = matrix, running = [], results = [], pworld = w\<rparr>)
                  = take (nat W) matrix
              \<and> queue ((worker_start opts outDir ^^ nat W)
                           \<lparr>queue = matrix, running = [], results = [], pworld = w\<rparr>)
                  = drop (nat W) matrix
              \<and> mset (map fst rs) = mset matrix
              \<and> in_flight (trace w') = 0
              \<and> (\<forall>k \<in> set (levels 0 (trace w')).
                    0 \<le> k \<and> k \<le> W \<and> of_int k \<le> maxConcurrency (build_cfg cfg))
              \<and> (\<not> dryRun opts \<longrightarrow> W \<in> set (levels 0 (trace w')))
              \<and> (dryRun opts \<longrightarrow> w' = w)))
     \<and> (\<not> (parallel (build_cfg cfg) \<and> 1 < length matrix) \<longrightarrow>
           run_jobs e cfg opts sched matrix outDir w
             = Inr (build_sequential e cfg opts outDir matrix w)
           \<and> map fst (fst (build_sequential e cfg opts outDir matrix w)) = matrix
           \<and> in_flight (trace (snd (build_sequential e cfg opts outDir matrix w))) = 0
           \<and> (\<forall>k \<in> set (levels 0 (trace (snd (build_sequential e cfg opts outDir matrix w)))).
                 0 \<le> k \<and> k \<le> 1)
           \<and> (\<not> dryRun opts \<longrightarrow>
                 exec_events (trace (snd (build_sequential e cfg opts outDir matrix w)))
                   = concat (map (\<lambda>t. [Exec_start (pkgCommand t (path_join outDir (outputName t))),
                                        Exec_done (pkgCommand t (path_join outDir (outputName t)))])
                               matrix))
           \<and> (dryRun opts \<longrightarrow> snd (build_sequential e cfg opts outDir matrix w) = w))"
proof (intro conjI impI)
  let ?K = "maxConcurrency (build_cfg cfg)"
  let ?p0 = "\<lparr>queue = matrix, running = [], results = [], pworld = w\<rparr>"
  assume a: "parallel (build_cfg cfg) \<and> 1 < length matrix
          \<and> min ?K (of_nat (length matrix)) = of_int W \<and> 1 \<le> W"
  then have par: "parallel (build_cfg cfg) \<and> 1 < length matrix"
    and mW: "min ?K (of_nat (length matrix)) = of_int W" and W1: "1 \<le> W" by simp_all
  from W1 have W0: "0 \<le> W" by simp
  from pool_run_facts[OF mW W0 p, of e cfg opts sched outDir] W1 obtain rs w'
    where run: "buildWithConcurrency e cfg opts sched matrix outDir ?K w = Inr (rs, w')"
      and cover: "mset (map fst rs) = mset matrix"
      and facts: "run_facts e cfg opts outDir matrix W w rs w'"
    by blast
  from par run have rj: "run_jobs e cfg opts sched matrix outDir w = Inr (rs, w')"
    by (simp add: run_jobs_def)
  have slots: "js_Array (min ?K (of_nat (length matrix))) = Inr (nat W)"
    unfolding mW by (rule js_Array_slots[OF W0])
  have "(of_int W :: rat) \<le> of_nat (length matrix)"
    unfolding mW[symmetric] by simp
  then have "W \<le> int (length matrix)"
    by (metis of_int_le_iff of_int_of_nat_eq)
  then have Wlen: "nat W \<le> length matrix" by linarith
  from spawn_shape[of "nat W" ?p0 opts outDir] Wlen
  have taken: "running ((worker_start opts outDir ^^ nat W) ?p0) = take (nat W) matrix"
    and left: "queue ((worker_start opts outDir ^^ nat W) ?p0) = drop (nat W) matrix"
    by simp_all
  have WK: "(of_int W :: rat) \<le> ?K"
    unfolding mW[symmetric] by simp
  from facts have fl: "in_flight (trace w') = 0"
    and lv: "\<forall>k \<in> set (levels 0 (trace w')). 0 \<le> k \<and> k \<le> W"
    and pk: "\<not> dryRun opts \<longrightarrow> W \<in> set (levels 0 (trace w'))"
    and dr: "dryRun opts \<longrightarrow> w' = w"
    by (simp_all add: run_facts_def)
  have bound: "\<forall>k \<in> set (levels 0 (trace w')).
                    0 \<le> k \<and> k \<le> W \<and> of_int k \<le> ?K"
  proof
    fix k assume "k \<in> set (levels 0 (trace w'))"
    with lv have k: "0 \<le> k \<and> k \<le> W" by blast
    then have "(of_int k :: rat) \<le> of_int W" by simp
    with WK k show "0 \<le> k \<and> k \<le> W \<and> of_int k \<le> ?K" by simp
  qed
  from rj run slots taken left cover fl bound pk dr
  show "\<exists>rs w'. run_jobs e cfg opts sched matrix outDir w = Inr (rs, w')
              \<and> buildWithConcurrency e cfg opts sched matrix outDir ?K w = Inr (rs, w')
              \<and> js_Array (min ?K (of_nat (length matrix))) = Inr (nat W)
              \<and> running ((worker_start opts outDir ^^ nat W) ?p0) = take (nat W) matrix
              \<and> queue ((worker_start opts outDir ^^ nat W) ?p0) = drop (nat W) matrix
              \<and> mset (map fst rs) = mset matrix
              \<and> in_flight (trace w') = 0
              \<and> (\<forall>k \<in> set (levels 0 (trace w')).
                    0 \<le> k \<and> k \<le> W \<and> of_int k \<le> ?K)
              \<and> (\<not> dryRun opts \<longrightarrow> W \<in> set (levels 0 (trace w')))
              \<and> (dryRun opts \<longrightarrow> w' = w)"
    by blast
next
  assume "\<not> (parallel (build_cfg cfg) \<and> 1 < length matrix)"
  then show "run_jobs e cfg opts sched matrix outDir w
             = Inr (build_sequential e cfg opts outDir matrix w)"
    by (auto simp: run_jobs_def)
next
  show "map fst (fst (build_sequential e cfg opts outDir matrix w)) = matrix"
    by (rule build_sequential_order)
next
  let ?S = "build_sequential e cfg opts outDir matrix w"
  have one: "min (1::rat) (of_nat (length matrix)) = of_int (min 1 (int (length matrix)))"
    by (simp add: min_def)
  from pool_run_facts[OF one _ p, of e cfg opts sched outDir]
  have facts: "run_facts e cfg opts outDir matrix (min 1 (int (length matrix))) w (fst ?S) (snd ?S)"
    by (auto simp: single_worker)
  from facts show "in_flight (trace (snd ?S)) = 0"
    by (simp add: run_facts_def)
  from facts show "\<forall>k \<in> set (levels 0 (trace (snd ?S))). 0 \<le> k \<and> k \<le> 1"
    by (auto simp: run_facts_def)
  from facts show "dryRun opts \<Longrightarrow> snd ?S = w"
    by (simp add: run_facts_def)
  from p have quiet: "\<forall>ev \<in> set (trace w). delta ev = 0" by (simp add: prepared_def)
  show "\<not> dryRun opts \<Longrightarrow>
        exec_events (trace (snd ?S))
          = concat (map (\<lambda>t. [Exec_start (pkgCommand t (path_join outDir (outputName t))),
                               Exec_done (pkgCommand t (path_join outDir (outputName t)))])
                      matrix)"
    by (simp add: build_sequential_exec_events exec_events_quiet[OF quiet])
qed

text \<open>What one build returns, from the outcome of its invocation.\<close>

lemma buildTarget_failed:
  "\<not> dryRun opts \<Longrightarrow>
   run_pkg e (pkgCommand t (path_join outDir (outputName t))) = Exit_failed msg \<Longrightarrow>
   fst (buildTarget e cfg opts t outDir w) = result_failed msg"
  by (simp add: buildTarget_def buildTarget_finish_failed)






subsection \<open>Concrete runs\<close>



theorem manifest_written_iff_witness:
  "(\<exists>tr \<in> set (run_results (build_main flaky_env pending_config no_filters [] stale_dir)).
       success (snd tr))
   \<and> ''manifest.json''
       \<in> set (written_names (trace (final_world
                 (build_main flaky_env pending_config no_filters [] stale_dir))))
   \<and> readFileSync ''manifest.json''
         (final_world (build_main flaky_env pending_config no_filters [] stale_dir))
       = Inr ''mjml-linux-x64-node18,mjml-darwin-arm64-node18,mjml-darwin-arm64-node22''
   \<and> \<not> (\<exists>tr \<in> set (run_results (build_main failing_env pending_config no_filters [] stale_dir)).
           success (snd tr))
   \<and> ''manifest.json''
       \<notin> set (written_names (trace (final_world
                 (build_main failing_env pending_config no_filters [] stale_dir))))
   \<and> readFileSync ''manifest.json''
         (final_world (build_main failing_env pending_config no_filters [] stale_dir))
       = Inr ''previous''"
proof -
  let ?R = "build_main flaky_env pending_config no_filters [] stale_dir"
  let ?F = "build_main failing_env pending_config no_filters [] stale_dir"
  have some: "\<exists>tr \<in> set (run_results ?R). success (snd tr)" by code_simp
  have none: "\<not> (\<exists>tr \<in> set (run_results ?F). success (snd tr))" by code_simp
  from manifest_written_iff[of flaky_env pending_config no_filters "[]" stale_dir] some
  have written: "''manifest.json'' \<in> set (written_names (trace (final_world ?R)))"
    and content: "readFileSync ''manifest.json'' (final_world ?R)
             = Inr (JSON_stringify flaky_env (manifest_of flaky_env (run_results ?R)))"
    by blast+
  have "JSON_stringify flaky_env (manifest_of flaky_env (run_results ?R))
          = ''mjml-linux-x64-node18,mjml-darwin-arm64-node18,mjml-darwin-arm64-node22''"
    by code_simp
  with content have listed: "readFileSync ''manifest.json'' (final_world ?R)
       = Inr ''mjml-linux-x64-node18,mjml-darwin-arm64-node18,mjml-darwin-arm64-node22''"
    by simp
  from manifest_written_iff[of failing_env pending_config no_filters "[]" stale_dir] none
  have untouched: "''manifest.json'' \<notin> set (written_names (trace (final_world ?F)))"
    by blast
  have kept: "readFileSync ''manifest.json'' (final_world ?F) = Inr ''previous''"
    by code_simp
  show ?thesis by (intro conjI some written listed none untouched kept)
qed

theorem bounded_concurrency_witness:
  "prepared fresh_world
   \<and> parallel (build_cfg (parallel_config 2))
   \<and> 1 < length (generateBuildMatrix (parallel_config 2) no_filters)
   \<and> min (maxConcurrency (build_cfg (parallel_config 2)))
         (of_nat (length (generateBuildMatrix (parallel_config 2) no_filters))) = of_int 2
   \<and> (\<exists>rs w'. run_jobs flaky_env (parallel_config 2) no_filters [1, 0, 1]
                  (generateBuildMatrix (parallel_config 2) no_filters) ''/repo/dist'' fresh_world
                = Inr (rs, w')
          \<and> mset (map fst rs) = mset (generateBuildMatrix (parallel_config 2) no_filters)
          \<and> in_flight (trace w') = 0
          \<and> list_all (\<lambda>k. 0 \<le> k \<and> k \<le> 2) (levels 0 (trace w'))
          \<and> 2 \<in> set (levels 0 (trace w')))
   \<and> (case run_jobs flaky_env (parallel_config 2) no_filters [1, 0, 1]
              (generateBuildMatrix (parallel_config 2) no_filters) ''/repo/dist'' fresh_world of
         Inl err \<Rightarrow> []
       | Inr x \<Rightarrow> levels 0 (trace (snd x)))
       = [0, 1, 2, 1, 2, 1, 1, 2, 1, 1, 0, 0]
   \<and> \<not> parallel (build_cfg pending_config)
   \<and> run_jobs flaky_env pending_config no_filters [1, 0, 1]
         (generateBuildMatrix pending_config no_filters) ''/repo/dist'' fresh_world
       = Inr (build_sequential flaky_env pending_config no_filters ''/repo/dist''
                (generateBuildMatrix pending_config no_filters) fresh_world)
   \<and> levels 0 (trace (snd (build_sequential flaky_env pending_config no_filters ''/repo/dist''
                              (generateBuildMatrix pending_config no_filters) fresh_world)))
       = [0, 1, 0, 0, 1, 0, 1, 0, 0, 1, 0, 0]"
proof -
  let ?cfg = "parallel_config 2"
  let ?M = "generateBuildMatrix ?cfg no_filters"
  let ?S = "generateBuildMatrix pending_config no_filters"
  have p: "prepared fresh_world"
    by (simp add: prepared_def fresh_world_def written_names_def)
  have par: "parallel (build_cfg ?cfg)" by (simp add: parallel_config_def)
  have four: "length ?M = 4" by code_simp
  then have many: "1 < length ?M" by simp
  have slots: "min (maxConcurrency (build_cfg ?cfg)) (of_nat (length ?M)) = of_int 2"
    unfolding four by (simp add: parallel_config_def)
  have real: "\<not> dryRun no_filters" by (simp add: no_filters_def)
  from bounded_concurrency[OF p, of ?cfg ?M 2 flaky_env no_filters "[1, 0, 1]" "''/repo/dist''"]
    par many slots real
  obtain rs w'
    where run: "run_jobs flaky_env ?cfg no_filters [1, 0, 1] ?M ''/repo/dist'' fresh_world
                  = Inr (rs, w')"
      and cover: "mset (map fst rs) = mset ?M"
      and idle: "in_flight (trace w') = 0"
      and bound: "\<forall>k \<in> set (levels 0 (trace w')). 0 \<le> k \<and> k \<le> 2"
      and peak: "2 \<in> set (levels 0 (trace w'))"
    by auto
  from bound have "list_all (\<lambda>k. 0 \<le> k \<and> k \<le> 2) (levels 0 (trace w'))"
    by (simp add: list_all_iff)
  with run cover idle peak
  have ex: "\<exists>rs w'. run_jobs flaky_env ?cfg no_filters [1, 0, 1] ?M ''/repo/dist'' fresh_world
                = Inr (rs, w')
          \<and> mset (map fst rs) = mset ?M
          \<and> in_flight (trace w') = 0
          \<and> list_all (\<lambda>k. 0 \<le> k \<and> k \<le> 2) (levels 0 (trace w'))
          \<and> 2 \<in> set (levels 0 (trace w'))"
    by blast
  have history: "(case run_jobs flaky_env ?cfg no_filters [1, 0, 1] ?M ''/repo/dist'' fresh_world of
         Inl err \<Rightarrow> []
       | Inr x \<Rightarrow> levels 0 (trace (snd x)))
       = [0, 1, 2, 1, 2, 1, 1, 2, 1, 1, 0, 0]"
    by code_simp
  have nopar: "\<not> parallel (build_cfg pending_config)" by (simp add: pending_config_def)
  from bounded_concurrency[OF p, of pending_config ?S 0 flaky_env no_filters "[1, 0, 1]"
      "''/repo/dist''"] nopar
  have sequential: "run_jobs flaky_env pending_config no_filters [1, 0, 1] ?S ''/repo/dist''
         fresh_world
       = Inr (build_sequential flaky_env pending_config no_filters ''/repo/dist'' ?S fresh_world)"
    by blast
  have one_by_one: "levels 0 (trace (snd (build_sequential flaky_env pending_config no_filters
                       ''/repo/dist'' ?S fresh_world)))
       = [0, 1, 0, 0, 1, 0, 1, 0, 0, 1, 0, 0]"
    by code_simp
  show ?thesis by (intro conjI p par many slots ex history nopar sequential one_by_one)
qed

text \<open>
  The claim as stated ranges over every limit.  With a limit of zero no worker is
  started: four jobs are planned, none is run, the queue is left as it was and the script
  ends with status 0.  With a negative limit, or with a fractional one below the number
  of jobs, the array of workers cannot be created and the script ends with status 1
  before any job runs.
\<close>

theorem unusable_limit_counterexample:
  "length (generateBuildMatrix (parallel_config 0) no_filters) = 4
   \<and> run_results (build_main example_env (parallel_config 0) no_filters [] stale_dir) = []
   \<and> mset (map fst (run_results (build_main example_env (parallel_config 0) no_filters []
                                    stale_dir)))
       \<noteq> mset (generateBuildMatrix (parallel_config 0) no_filters)
   \<and> exit_code (build_main example_env (parallel_config 0) no_filters [] stale_dir) = 0
   \<and> run_jobs example_env (parallel_config (- 1)) no_filters []
         (generateBuildMatrix (parallel_config (- 1)) no_filters) ''/repo/dist'' fresh_world
       = Inl ''RangeError: Invalid array length''
   \<and> run_summary (build_main example_env (parallel_config (- 1)) no_filters [] stale_dir)
       = None
   \<and> exit_code (build_main example_env (parallel_config (- 1)) no_filters [] stale_dir) = 1
   \<and> run_jobs example_env (parallel_config (3 / 2)) no_filters []
         (generateBuildMatrix (parallel_config (3 / 2)) no_filters) ''/repo/dist'' fresh_world
       = Inl ''RangeError: Invalid array length''
   \<and> run_summary (build_main example_env (parallel_config (3 / 2)) no_filters [] stale_dir)
       = None
   \<and> exit_code (build_main example_env (parallel_config (3 / 2)) no_filters [] stale_dir) = 1"
proof -
  have a: "length (generateBuildMatrix (parallel_config 0) no_filters) = 4" by code_simp
  have b: "run_results (build_main example_env (parallel_config 0) no_filters [] stale_dir) = []"
    by code_simp
  have c: "exit_code (build_main example_env (parallel_config 0) no_filters [] stale_dir) = 0"
    by code_simp
  from a have "generateBuildMatrix (parallel_config 0) no_filters \<noteq> []" by auto
  with b have d: "mset (map fst (run_results (build_main example_env (parallel_config 0)
                                              no_filters [] stale_dir)))
       \<noteq> mset (generateBuildMatrix (parallel_config 0) no_filters)"
    by simp
  have f: "run_jobs example_env (parallel_config (- 1)) no_filters []
         (generateBuildMatrix (parallel_config (- 1)) no_filters) ''/repo/dist'' fresh_world
       = Inl ''RangeError: Invalid array length''"
    by code_simp
  have g: "run_summary (build_main example_env (parallel_config (- 1)) no_filters [] stale_dir)
       = None"
    by code_simp
  have h: "exit_code (build_main example_env (parallel_config (- 1)) no_filters [] stale_dir) = 1"
    by code_simp
  have i: "run_jobs example_env (parallel_config (3 / 2)) no_filters []
         (generateBuildMatrix (parallel_config (3 / 2)) no_filters) ''/repo/dist'' fresh_world
       = Inl ''RangeError: Invalid array length''"
    by code_simp
  have j: "run_summary (build_main example_env (parallel_config (3 / 2)) no_filters [] stale_dir)
       = None"
    by code_simp
  have k: "exit_code (build_main example_env (parallel_config (3 / 2)) no_filters [] stale_dir) = 1"
    by code_simp
  show ?thesis by (intro conjI a b d c f g h i j k)
qed

text \<open>
  Claim C8.  In a dry run \<open>buildTarget\<close> itself invokes nothing and leaves the world as
  it is, but the script around it does not: it creates the output directory when it is
  missing, removes every file of it when cleaning is configured, and writes a manifest
  that lists every planned job as built.  (In the pool a dry build has nothing to wait
  for, so the workers resume in turn: the schedule below.)
\<close>

theorem dry_run_touches_the_directory:
  "dryRun dry_run
   \<and> buildTarget example_env (parallel_config 2) dry_run linux_20 ''/repo/dist'' fresh_world
       = (result_dry, fresh_world)
   \<and> final_world (build_main example_env (parallel_config 2) dry_run [0, 1, 0, 0] stale_dir)
       = \<lparr>outdir = Some [(''manifest.json'',
            ''mjml-linux-x64-node18,mjml-linux-x64-node22,mjml-darwin-arm64-node18,mjml-darwin-arm64-node22'')],
          trace = [Unlink ''stale'', Unlink ''manifest.json'',
                   Write ''manifest.json''
            ''mjml-linux-x64-node18,mjml-linux-x64-node22,mjml-darwin-arm64-node18,mjml-darwin-arm64-node22'']\<rparr>
   \<and> final_world (build_main example_env pending_config dry_run [] None)
       = \<lparr>outdir = Some [(''manifest.json'',
            ''mjml-linux-x64-node18,mjml-linux-x64-node22,mjml-darwin-arm64-node18,mjml-darwin-arm64-node22'')],
          trace = [Mkdir,
                   Write ''manifest.json''
            ''mjml-linux-x64-node18,mjml-linux-x64-node22,mjml-darwin-arm64-node18,mjml-darwin-arm64-node22'']\<rparr>"
  by code_simp

end
